theory Spec2Isabelle
  imports Main "HOL-Library.Word" "HOL-Library.Signed_Division" "HOL-Library.Monad_Syntax"
    "HOL-Library.Sublist"
begin

section \<open>nacl\_interp: a stand-in dynamic linker that re-executes a loader\<close>

text \<open>
  The embedding follows \<^verbatim>\<open>nacl_interp.c\<close>. The program runs before any C library
  is set up, so everything it does is visible in the one source file: it reads the
  initial stack block, decides, and either replaces the process image or writes one
  diagnostic line and exits.

  \<^item> A C \<^verbatim>\<open>int\<close> is a 32-bit word read as two's complement; \<^verbatim>\<open>uintptr_t\<close> is
    a word of the target's pointer width, kept polymorphic as \<open>'w word\<close>.
  \<^item> \<^verbatim>\<open>int\<close> arithmetic wraps around in two's complement, as it does on the four
    targets of the program.
  \<^item> A \<^verbatim>\<open>const char *\<close> is either \<open>NULL\<close> or \<open>Ptr bs\<close>, where \<open>bs\<close> are the bytes
    stored from that address on. Reading a C string past the end of \<open>bs\<close> yields the
    terminating NUL. Advancing the pointer drops the first byte.
  \<^item> The stack block is a list of words. A word of it that is used as a pointer to a
    string is looked up in \<open>mem\<close>, which gives the bytes at every address; a fault
    on an address that is not mapped is not modelled.
  \<^item> An access outside an array makes the result \<open>None\<close>: the C program has no
    defined behaviour there.
  \<^item> The system calls come from \<^verbatim>\<open>lss/linux_syscall_support.h\<close>, which is not part of
    the source file. The calls that the program makes are recorded as events, and the
    answers of the kernel are parameters of the run.
\<close>

subsection \<open>C values\<close>

type_synonym c_int = "32 word"

definition INT_MIN :: c_int where
  "INT_MIN = - 2147483648"

definition NUL :: char where
  "NUL = CHR 0x00"

datatype cptr = NULL | Ptr string

text \<open>\<^verbatim>\<open>/\<close> and \<^verbatim>\<open>%\<close> on \<^verbatim>\<open>int\<close> truncate towards zero.\<close>

definition c_div :: "c_int \<Rightarrow> c_int \<Rightarrow> c_int" where
  "c_div a b = word_of_int (sint a sdiv sint b)"

definition c_mod :: "c_int \<Rightarrow> c_int \<Rightarrow> c_int" where
  "c_mod a b = word_of_int (sint a smod sint b)"

text \<open>
  \<open>string_at s i\<close> is \<^verbatim>\<open>s[i]\<close> for a string constant \<open>s\<close>, an array of
  \<open>length s + 1\<close> bytes whose last byte is NUL.
\<close>

definition string_at :: "string \<Rightarrow> int \<Rightarrow> char option" where
  "string_at s i =
     (if 0 \<le> i \<and> i \<le> int (length s) then Some ((s @ [NUL]) ! nat i) else None)"

subsection \<open>String helpers of the program\<close>

text \<open>
  \<^verbatim>\<open>
  static size_t my_strlen(const char *s) {
    size_t n = 0;
    while (*s++ != '\0')
      ++n;
    return n;
  }
  \<close>
\<close>

fun strlen_from :: "string \<Rightarrow> nat \<Rightarrow> nat" where
  "strlen_from [] n = n"
| "strlen_from (c # s) n = (if c \<noteq> NUL then strlen_from s (n + 1) else n)"

definition my_strlen :: "string \<Rightarrow> nat" where
  "my_strlen s = strlen_from s 0"

subsection \<open>Rendering a number\<close>

record kernel_iovec =
  iov_base :: cptr
  iov_len :: nat

text \<open>
  \<^verbatim>\<open>
  static void iov_int_string(int value, struct kernel_iovec *iov,
                             char *buf, size_t bufsz) {
    char *p = &buf[bufsz];
    int negative = value < 0;
    if (negative)
      value = -value;
    do {
      --p;
      *p = "0123456789"[value % 10];
      value /= 10;
    } while (value != 0);
    if (negative)
      *--p = '-';
    iov->iov_base = p;
    iov->iov_len = &buf[bufsz] - p;
  }
  \<close>
  The buffer is filled from its end towards its start. The pointer \<open>p\<close> is the pair
  of its index in \<open>buf\<close> and the bytes \<open>buf[p..bufsz)\<close> written so far; nothing
  below \<open>p\<close> is ever read. Stepping \<open>p\<close> below \<open>buf[0]\<close> is outside the array.
  The negation wraps around, so \<open>- INT_MIN = INT_MIN\<close> stays negative.
\<close>

type_synonym cursor = "nat \<times> string"

definition put_before :: "cursor \<Rightarrow> char \<Rightarrow> cursor option" where
  "put_before cur c = (case cur of (p, s) \<Rightarrow> if p = 0 then None else Some (p - 1, c # s))"

function int_digits :: "c_int \<Rightarrow> cursor \<Rightarrow> cursor option" where
  "int_digits v cur =
     (case string_at ''0123456789'' (sint (c_mod v 10)) of
        None \<Rightarrow> None
      | Some c \<Rightarrow>
          (case put_before cur c of
             None \<Rightarrow> None
           | Some cur' \<Rightarrow>
               if c_div v 10 \<noteq> 0 then int_digits (c_div v 10) cur' else Some cur'))"
  by pat_completeness auto

lemma abs_sdiv_10: "\<bar>(k::int) sdiv 10\<bar> = \<bar>k\<bar> div 10"
  by (cases "k = 0") (simp_all add: signed_divide_int_def abs_mult abs_sgn_eq)

lemma sint_c_div_10: "sint (c_div v 10) = sint v sdiv 10"
proof -
  have "- (2 ^ 31) \<le> sint v" "sint v < 2 ^ 31"
    using sint_ge [of v] sint_lt [of v] by simp_all
  then have "\<bar>sint v\<bar> div 10 < 2 ^ 31"
    by simp
  then have "\<bar>sint v sdiv 10\<bar> < 2 ^ 31"
    by (simp only: abs_sdiv_10)
  then have "- (2 ^ 31) \<le> sint v sdiv 10" "sint v sdiv 10 < 2 ^ 31"
    by linarith+
  then show ?thesis
    by (simp add: c_div_def sint_sbintrunc' signed_take_bit_int_eq_self)
qed

lemma c_div_10_smaller: "c_div v 10 \<noteq> 0 \<Longrightarrow> \<bar>sint (c_div v 10)\<bar> < \<bar>sint v\<bar>"
proof -
  assume "c_div v 10 \<noteq> 0"
  then have "sint (c_div v 10) \<noteq> 0"
    by (simp add: signed_eq_0_iff)
  then have "\<bar>sint v\<bar> div 10 \<noteq> 0"
    using abs_sdiv_10 [of "sint v"] by (simp add: sint_c_div_10)
  then have "\<bar>sint v\<bar> div 10 < \<bar>sint v\<bar>"
    by linarith
  then show ?thesis
    by (simp add: sint_c_div_10 abs_sdiv_10)
qed

termination int_digits
  by (relation "measure (\<lambda>(v, cur). nat \<bar>sint v\<bar>)") (auto dest: c_div_10_smaller)

declare int_digits.simps [simp del]

definition iov_int_string :: "c_int \<Rightarrow> nat \<Rightarrow> kernel_iovec option" where
  "iov_int_string value bufsz =
     (let negative = (sint value < 0);
          value' = (if negative then - value else value)
      in case int_digits value' (bufsz, []) of
           None \<Rightarrow> None
         | Some cur \<Rightarrow>
             (case (if negative then put_before cur CHR ''-'' else Some cur) of
                None \<Rightarrow> None
              | Some (p, s) \<Rightarrow> Some \<lparr>iov_base = Ptr s, iov_len = bufsz - p\<rparr>))"

subsection \<open>Arrays\<close>

text \<open>Reading and writing \<^verbatim>\<open>a[i]\<close>; an index outside the array has no defined result.\<close>

definition array_get :: "'a list \<Rightarrow> int \<Rightarrow> 'a option" where
  "array_get a i = (if 0 \<le> i \<and> i < int (length a) then Some (a ! nat i) else None)"

definition array_set :: "'a list \<Rightarrow> int \<Rightarrow> 'a \<Rightarrow> 'a list option" where
  "array_set a i x = (if 0 \<le> i \<and> i < int (length a) then Some (a[nat i := x]) else None)"

text \<open>
  \<^verbatim>\<open>&a[i]\<close>: the array as seen from its \<open>i\<close>-th element. The pointer one past the
  last element may be formed; reading through it fails, the list being empty.
\<close>

definition array_from :: "'a list \<Rightarrow> int \<Rightarrow> 'a list option" where
  "array_from a i = (if 0 \<le> i \<and> i \<le> int (length a) then Some (drop (nat i) a) else None)"

subsection \<open>Looking up the environment\<close>

definition ENVAR :: string where
  "ENVAR = ''NACL_INTERP_LOADER''"

text \<open>\<open>deref s\<close> is \<^verbatim>\<open>*s\<close> for a pointer \<open>s\<close> into a C string.\<close>

definition deref :: "string \<Rightarrow> char" where
  "deref s = (case s of [] \<Rightarrow> NUL | c # _ \<Rightarrow> c)"

text \<open>
  \<^verbatim>\<open>
  static const char *environ_match(const char *name, const char *envstring) {
    const char *a = name;
    const char *b = envstring;
    while (*a == *b) {
      if (*a == '\0')
        return NULL;
      ++a;
      ++b;
    }
    if (*a == '\0' && *b == '=')
      return b + 1;
    return NULL;
  }
  \<close>
\<close>

function environ_match :: "string \<Rightarrow> string \<Rightarrow> cptr" where
  "environ_match a b =
     (if deref a = deref b
      then (if deref a = NUL then NULL else environ_match (tl a) (tl b))
      else if deref a = NUL \<and> deref b = CHR ''='' then Ptr (tl b) else NULL)"
  by pat_completeness auto
termination
  by (relation "measure (\<lambda>(a, b). length a)") (auto simp add: deref_def split: list.splits)

declare environ_match.simps [simp del]

text \<open>
  \<^verbatim>\<open>
  static const char *my_getenv(const char *name, const char *const *envp) {
    const char *const *ep;
    for (ep = envp; *ep != NULL; ++ep) {
      const char *match = environ_match(name, *ep);
      if (match != NULL)
        return match;
    }
    return NULL;
  }
  \<close>
  \<open>envp\<close> points into the stack block: it is the list of the words from there on.
  \<open>mem\<close> gives the bytes stored at an address that the kernel handed over.
\<close>

fun my_getenv :: "('w::len word \<Rightarrow> string) \<Rightarrow> string \<Rightarrow> 'w word list \<Rightarrow> cptr option" where
  "my_getenv mem name [] = None"
| "my_getenv mem name (e # ep) =
     (if e \<noteq> 0
      then (case environ_match name (mem e) of
              NULL \<Rightarrow> my_getenv mem name ep
            | Ptr match \<Rightarrow> Some (Ptr match))
      else Some NULL)"

subsection \<open>What the process does\<close>

text \<open>
  The program acts on the world through four system calls. A run is the list of the
  calls it makes, in order. \<open>Sys_exit_group\<close> ends the process; \<open>Sys_execve\<close> ends
  it too when the kernel accepts the call.
\<close>

datatype 'p event =
    Sys_readlink string nat
  | Sys_writev int "kernel_iovec list"
  | Sys_exit_group int
  | Sys_execve string "cptr option list" "'p list"

text \<open>
  The answers of the kernel. \<open>readlink_target path\<close> is the target of the symbolic
  link \<open>path\<close>, if it can be read. \<open>execve_errno file\<close> is \<open>None\<close> when \<open>file\<close> can be
  executed, and otherwise the error number that \<^verbatim>\<open>sys_execve\<close> leaves in
  \<^verbatim>\<open>my_errno\<close>.
\<close>

record os =
  readlink_target :: "string \<Rightarrow> string option"
  execve_errno :: "string \<Rightarrow> c_int option"

text \<open>
  \<^verbatim>\<open>readlink(path, buf, bufsiz)\<close> as the kernel implements it: it stores the target in
  \<open>buf\<close>, cut to at most \<open>bufsiz\<close> bytes and without a terminating NUL, and returns the
  number of bytes stored, or \<open>-1\<close>.
\<close>

definition sys_readlink :: "os \<Rightarrow> string \<Rightarrow> string \<Rightarrow> nat \<Rightarrow> int \<times> string" where
  "sys_readlink os path buf bufsiz =
     (case readlink_target os path of
        None \<Rightarrow> (- 1, buf)
      | Some target \<Rightarrow>
          (let n = min (length target) bufsiz in (int n, take n target @ drop n buf)))"

text \<open>The bytes that a \<^verbatim>\<open>writev\<close> call sends: \<open>iov_len\<close> bytes from each \<open>iov_base\<close>.\<close>

definition iov_bytes :: "kernel_iovec \<Rightarrow> string" where
  "iov_bytes v = (case iov_base v of NULL \<Rightarrow> [] | Ptr s \<Rightarrow> take (iov_len v) s)"

definition writev_bytes :: "kernel_iovec list \<Rightarrow> string" where
  "writev_bytes iov = concat (map iov_bytes iov)"

subsection \<open>Failing\<close>

text \<open>
  \<^verbatim>\<open>
  #define STRING_IOV(string_constant, cond) \
    { (void *) string_constant, cond ? (sizeof(string_constant) - 1) : 0 }

  __attribute__((noreturn)) static void fail(const char *message,
                                             const char *filename,
                                             const char *item1, int value1) {
    char valbuf1[32];
    struct kernel_iovec iov[] = {
      STRING_IOV("nacl_interp: ", 1),
      { (void *) message, my_strlen(message) },
      { (void *) filename, filename == NULL ? 0 : my_strlen(filename) },
      STRING_IOV(": ", item1 != NULL),
      { (void *) item1, item1 == NULL ? 0 : my_strlen(item1) },
      STRING_IOV("=", item1 != NULL),
      { NULL, 0 },                        /* iov[6] */
      { "\n", 1 },
    };
    const int niov = sizeof(iov) / sizeof(iov[0]);

    if (item1 != NULL)
      iov_int_string(value1, &iov[6], valbuf1, sizeof(valbuf1));

    sys_writev(2, iov, niov);
    sys_exit_group(2);
    while (1) *(volatile int *) 0 = 0;  /* Crash.  */
  }
  \<close>
  Every caller passes a string constant as \<open>message\<close>, so it is a string here.
\<close>

definition STRING_IOV :: "string \<Rightarrow> bool \<Rightarrow> kernel_iovec" where
  "STRING_IOV string_constant cond =
     \<lparr>iov_base = Ptr string_constant, iov_len = (if cond then length string_constant else 0)\<rparr>"

definition fail :: "string \<Rightarrow> cptr \<Rightarrow> cptr \<Rightarrow> c_int \<Rightarrow> 'p event list option" where
  "fail message filename item1 value1 =
     (let iov =
        [STRING_IOV ''nacl_interp: '' True,
         \<lparr>iov_base = Ptr message, iov_len = my_strlen message\<rparr>,
         \<lparr>iov_base = filename,
          iov_len = (case filename of NULL \<Rightarrow> 0 | Ptr f \<Rightarrow> my_strlen f)\<rparr>,
         STRING_IOV '': '' (item1 \<noteq> NULL),
         \<lparr>iov_base = item1, iov_len = (case item1 of NULL \<Rightarrow> 0 | Ptr i \<Rightarrow> my_strlen i)\<rparr>,
         STRING_IOV ''='' (item1 \<noteq> NULL),
         \<lparr>iov_base = NULL, iov_len = 0\<rparr>,
         \<lparr>iov_base = Ptr [CHR 0x0A], iov_len = 1\<rparr>]
      in do {
        iov' \<leftarrow> (if item1 \<noteq> NULL
                 then do { v \<leftarrow> iov_int_string value1 32; Some (iov[6 := v]) }
                 else Some iov);
        Some [Sys_writev 2 iov', Sys_exit_group 2]
      })"

subsection \<open>The entry point\<close>

text \<open>Tags of the auxiliary vector, from \<^verbatim>\<open><elf.h>\<close>; the size of a path, from \<^verbatim>\<open><linux/limits.h>\<close>.\<close>

definition AT_NULL :: "'w::len word" where
  "AT_NULL = 0"

definition AT_PLATFORM :: "'w::len word" where
  "AT_PLATFORM = 15"

definition AT_SECURE :: "'w::len word" where
  "AT_SECURE = 23"

definition AT_EXECFN :: "'w::len word" where
  "AT_EXECFN = 31"

definition PATH_MAX :: nat where
  "PATH_MAX = 4096"

text \<open>The machine the program is compiled for selects the default platform name.\<close>

datatype arch = X86_64 | I386 | ARM | MIPS

fun default_platform :: "arch \<Rightarrow> string" where
  "default_platform X86_64 = ''x86_64''"
| "default_platform I386 = ''i386''"
| "default_platform ARM = ''arm''"
| "default_platform MIPS = ''mips''"

text \<open>A \<^verbatim>\<open>uintptr_t\<close> of the stack block cast to \<^verbatim>\<open>const char *\<close>.\<close>

definition to_ptr :: "('w::len word \<Rightarrow> string) \<Rightarrow> 'w word \<Rightarrow> cptr" where
  "to_ptr mem w = (if w = 0 then NULL else Ptr (mem w))"

text \<open>\<^verbatim>\<open>while (*ep != NULL) ++ep;\<close> The result is \<open>ep\<close>.\<close>

fun find_null :: "'w::len word list \<Rightarrow> 'w word list option" where
  "find_null [] = None"
| "find_null (w # ep) = (if w \<noteq> 0 then find_null ep else Some (w # ep))"

text \<open>
  \<^verbatim>\<open>while (av->a_type != AT_NULL) ++av;\<close> An \<^verbatim>\<open>ElfW(auxv_t)\<close> is two words,
  \<open>a_type\<close> and \<open>a_un.a_val\<close>.
\<close>

fun find_at_null :: "'w::len word list \<Rightarrow> 'w word list option" where
  "find_at_null [] = None"
| "find_at_null [a_type] = (if a_type \<noteq> AT_NULL then None else Some [a_type])"
| "find_at_null (a_type # a_val # av) =
     (if a_type \<noteq> AT_NULL then find_at_null av else Some (a_type # a_val # av))"

text \<open>
  \<^verbatim>\<open>
  const char *execfn = NULL;
  const char *platform = NULL;
  bool secure = true;

  for (av = auxv; av->a_type != AT_NULL; ++av)
    switch (av->a_type) {
      case AT_EXECFN:
        execfn = (const char *) av->a_un.a_val;
        break;
      case AT_PLATFORM:
        platform = (const char *) av->a_un.a_val;
        break;
      case AT_SECURE:
        secure = av->a_un.a_val != 0;
        break;
    }
  \<close>
\<close>

record execution_context =
  execfn :: cptr
  platform :: cptr
  secure :: bool

definition aux_entry :: "('w::len word \<Rightarrow> string) \<Rightarrow> 'w word \<Rightarrow> 'w word \<Rightarrow> execution_context \<Rightarrow> execution_context" where
  "aux_entry mem a_type a_val c =
     (if a_type = AT_EXECFN then c\<lparr>execfn := to_ptr mem a_val\<rparr>
      else if a_type = AT_PLATFORM then c\<lparr>platform := to_ptr mem a_val\<rparr>
      else if a_type = AT_SECURE then c\<lparr>secure := (a_val \<noteq> 0)\<rparr>
      else c)"

fun scan_auxv :: "('w::len word \<Rightarrow> string) \<Rightarrow> 'w word list \<Rightarrow> execution_context \<Rightarrow> execution_context option" where
  "scan_auxv mem [] c = None"
| "scan_auxv mem [a_type] c = (if a_type \<noteq> AT_NULL then None else Some c)"
| "scan_auxv mem (a_type # a_val # av) c =
     (if a_type \<noteq> AT_NULL then scan_auxv mem av (aux_entry mem a_type a_val c) else Some c)"

text \<open>
  \<^verbatim>\<open>
  if (execfn == NULL) {
    static char buf[PATH_MAX + 1];
    ssize_t n = sys_readlink("/proc/self/exe", buf, sizeof buf - 1);
    if (n >= 0) {
      buf[n] = '\0';
      execfn = buf;
    } else {
      execfn = argv[0];
    }
  }
  \<close>
  \<open>buf\<close> has static storage, so it holds zeros when the program starts.
\<close>

definition self_exe :: "os \<Rightarrow> ('w::len word \<Rightarrow> string) \<Rightarrow> 'w word list \<Rightarrow> ('w word event list \<times> cptr) option" where
  "self_exe os mem argv =
     (let buf = replicate (PATH_MAX + 1) NUL;
          (n, buf') = sys_readlink os ''/proc/self/exe'' buf (length buf - 1);
          call = [Sys_readlink ''/proc/self/exe'' (length buf - 1)]
      in if n \<ge> 0
         then do { buf'' \<leftarrow> array_set buf' n NUL; Some (call, Ptr buf'') }
         else do { argv0 \<leftarrow> array_get argv 0; Some (call, to_ptr mem argv0) })"

text \<open>
  \<^verbatim>\<open>
  for (i = 1; i <= argc; ++i)
    new_argv[2 + i] = argv[i];
  \<close>
  A slot of \<open>new_argv\<close> that was never assigned is \<open>None\<close>.
\<close>

function copy_args :: "('w::len word \<Rightarrow> string) \<Rightarrow> 'w word list \<Rightarrow> c_int \<Rightarrow> c_int \<Rightarrow>
    cptr option list \<Rightarrow> cptr option list option" where
  "copy_args mem argv argc i new_argv =
     (if sint i \<le> sint argc
      then (case array_get argv (sint i) of
              None \<Rightarrow> None
            | Some a \<Rightarrow>
                (case array_set new_argv (sint (2 + i)) (Some (to_ptr mem a)) of
                   None \<Rightarrow> None
                 | Some new_argv' \<Rightarrow> copy_args mem argv argc (i + 1) new_argv'))
      else Some new_argv)"
  by pat_completeness auto

lemma mod_wrap: "(4294967296::int) \<le> x \<Longrightarrow> x < 4294967298 \<Longrightarrow> x mod 4294967296 < 2"
proof -
  assume a: "(4294967296::int) \<le> x" "x < 4294967298"
  have "x mod 4294967296 = (x - 4294967296) mod 4294967296"
    by (simp add: mod_diff_right_eq [symmetric])
  also have "\<dots> = x - 4294967296"
    using a by (intro mod_pos_pos_trivial) simp_all
  finally show ?thesis using a by simp
qed

lemma sint_succ_in_loop:
  "0 \<le> sint (i::c_int) \<Longrightarrow> 0 \<le> sint (2 + i) \<Longrightarrow> sint (i + 1) = sint i + 1"
proof -
  assume a: "0 \<le> sint i" "0 \<le> sint (2 + i)"
  have u: "sint i < 2147483648"
    using sint_lt [of i] by simp
  have s: "sint (2 + i) = (2 + sint i + 2147483648) mod 4294967296 - 2147483648"
    using int_word_sint [where 'a = 32, of "2 + sint i"] by simp
  have "sint i < 2147483646"
  proof (rule ccontr)
    assume n: "\<not> sint i < 2147483646"
    have "(2 + sint i + 2147483648) mod 4294967296 < 2"
      using n u by (intro mod_wrap) simp_all
    with s a show False by simp
  qed
  then show ?thesis
    using a by (simp add: sint_word_add signed_take_bit_int_eq_self)
qed


termination copy_args
proof (relation "measure (\<lambda>(mem, argv, argc, i, new_argv). nat (sint argc - sint i + 1))")
  show "wf (measure (\<lambda>(mem :: 'a word \<Rightarrow> string, argv :: 'a word list, argc, i, new_argv :: cptr option list).
      nat (sint argc - sint i + 1)))"
    by simp
next
  fix mem :: "'a word \<Rightarrow> string" and argv :: "'a word list" and argc i :: c_int
    and new_argv new_argv' :: "cptr option list" and a
  assume le: "sint i \<le> sint argc"
    and g: "array_get argv (sint i) = Some a"
    and s: "array_set new_argv (sint (2 + i)) (Some (to_ptr mem a)) = Some new_argv'"
  from g have "0 \<le> sint i"
    by (simp add: array_get_def split: if_splits)
  moreover from s have "0 \<le> sint (2 + i)"
    by (simp add: array_set_def split: if_splits)
  ultimately have "sint (i + 1) = sint i + 1"
    by (rule sint_succ_in_loop)
  with le show "((mem, argv, argc, i + 1, new_argv'), (mem, argv, argc, i, new_argv))
      \<in> measure (\<lambda>(mem, argv, argc, i, new_argv). nat (sint argc - sint i + 1))"
    by simp
qed

declare copy_args.simps [simp del]

text \<open>
  \<^verbatim>\<open>
  new_argv[0] = loader;
  new_argv[1] = platform;
  new_argv[2] = execfn;
  for (i = 1; i <= argc; ++i)
    new_argv[2 + i] = argv[i];
  \<close>
\<close>

definition fill_new_argv :: "('w::len word \<Rightarrow> string) \<Rightarrow> 'w word list \<Rightarrow> c_int \<Rightarrow> cptr option list \<Rightarrow>
    cptr \<Rightarrow> cptr \<Rightarrow> cptr \<Rightarrow> cptr option list option" where
  "fill_new_argv mem argv argc new_argv loader platform' execfn' = do {
     new_argv \<leftarrow> array_set new_argv 0 (Some loader);
     new_argv \<leftarrow> array_set new_argv 1 (Some platform');
     new_argv \<leftarrow> array_set new_argv 2 (Some execfn');
     copy_args mem argv argc 1 new_argv
   }"

text \<open>
  The three parts of \<^verbatim>\<open>do_start\<close>. It first walks the stack block:
  \<^verbatim>\<open>
  static void do_start(uintptr_t *stack) {
    int argc = stack[0];
    const char *const *argv = (const char *const *) &stack[1];
    const char *const *envp = &argv[argc + 1];
    const char *const *ep = envp;
    while (*ep != NULL)
      ++ep;
    ElfW(auxv_t) *auxv = (ElfW(auxv_t) *) (ep + 1);
    ElfW(auxv_t) *av = auxv;
    while (av->a_type != AT_NULL)
      ++av;
  \<close>
  \<open>stack\<close> is the block of words that the stack pointer points to. The conversion of
  \<open>stack[0]\<close> to \<^verbatim>\<open>int\<close> keeps its low 32 bits.
\<close>

definition decode_stack :: "'w::len word list \<Rightarrow> (c_int \<times> 'w word list \<times> 'w word list \<times> 'w word list) option" where
  "decode_stack stack = do {
     stack0 \<leftarrow> array_get stack 0;
     let argc = (ucast stack0 :: c_int);
     argv \<leftarrow> array_from stack 1;
     envp \<leftarrow> array_from argv (sint (argc + 1));
     ep \<leftarrow> find_null envp;
     auxv \<leftarrow> array_from ep 1;
     av \<leftarrow> find_at_null auxv;
     Some (argc, argv, envp, auxv)
   }"

text \<open>
  Then it scans the auxiliary vector and settles the name of the executable; \<open>mem\<close>
  gives the bytes behind the addresses stored in the block.
\<close>

definition resolve_context :: "os \<Rightarrow> ('w::len word \<Rightarrow> string) \<Rightarrow> 'w word list \<Rightarrow> 'w word list \<Rightarrow>
    ('w word event list \<times> execution_context) option" where
  "resolve_context os mem argv auxv = do {
     c \<leftarrow> scan_auxv mem auxv \<lparr>execfn = NULL, platform = NULL, secure = True\<rparr>;
     (calls, execfn') \<leftarrow> (if execfn c = NULL then self_exe os mem argv else Some ([], execfn c));
     Some (calls, c\<lparr>execfn := execfn'\<rparr>)
   }"

text \<open>
  The rest decides and acts:
  \<^verbatim>\<open>
    if (secure)
      fail("refusing secure exec of ", execfn, NULL, 0);

    if (platform == NULL) {
  #if defined(__x86_64__)
      platform = "x86_64";
  #elif defined(__i386__)
      platform = "i386";
  #elif defined(__arm__)
      platform = "arm";
  #elif defined(__mips__)
      platform = "mips";
  #else
  # error "Don't know default platform!"
  #endif
    }

    {
      const char *loader = my_getenv(ENVAR, envp);
      const char *new_argv[argc + 4];
      int i;

      if (loader == NULL)
        fail("environment variable " ENVAR
             " must be set to run a NaCl binary directly", NULL, NULL, 0);

      ... new_argv is filled, as above ...

      sys_execve(loader, (const char *const *) new_argv, envp);

      fail("failed to execute ", loader, "errno", my_errno);
    }
  }
  \<close>
  The result is the list of the system calls made. An array of variable length must
  have a positive size.
\<close>

text \<open>
  The string constant
  \<^verbatim>\<open>"environment variable " ENVAR " must be set to run a NaCl binary directly"\<close>.
\<close>

definition missing_loader_message :: string where
  "missing_loader_message =
     ''environment variable '' @ ENVAR @ '' must be set to run a NaCl binary directly''"

definition do_start :: "arch \<Rightarrow> os \<Rightarrow> ('w::len word \<Rightarrow> string) \<Rightarrow> 'w word list \<Rightarrow> 'w word event list option" where
  "do_start arch os mem stack = do {
     (argc, argv, envp, auxv) \<leftarrow> decode_stack stack;
     (calls, c) \<leftarrow> resolve_context os mem argv auxv;
     if secure c
     then do {
       evs \<leftarrow> fail ''refusing secure exec of '' (execfn c) NULL 0;
       Some (calls @ evs)
     }
     else do {
       let platform' = (if platform c = NULL then Ptr (default_platform arch) else platform c);
       loader \<leftarrow> my_getenv mem ENVAR envp;
       new_argv \<leftarrow> (if 0 < sint (argc + 4)
                     then Some (replicate (nat (sint (argc + 4))) None) else None);
       case loader of
         NULL \<Rightarrow> do {
           evs \<leftarrow> fail missing_loader_message NULL NULL 0;
           Some (calls @ evs)
         }
       | Ptr file \<Rightarrow> do {
           new_argv \<leftarrow> fill_new_argv mem argv argc new_argv loader platform' (execfn c);
           case execve_errno os file of
             None \<Rightarrow> Some (calls @ [Sys_execve file new_argv envp])
           | Some my_errno \<Rightarrow> do {
               evs \<leftarrow> fail ''failed to execute '' loader (Ptr ''errno'') my_errno;
               Some (calls @ [Sys_execve file new_argv envp] @ evs)
             }
         }
     }
   }"

subsection \<open>Vocabulary of the properties\<close>

text \<open>
  An initial stack block as the kernel lays it out: the argument count, that many
  argument pointers, a null word, the environment pointers, a null word, the pairs of
  the auxiliary vector, the tag \<open>AT_NULL\<close>, and whatever follows.
\<close>

definition aux_words :: "('w::len word \<times> 'w word) list \<Rightarrow> 'w word list" where
  "aux_words aux = concat (map (\<lambda>(a_type, a_val). [a_type, a_val]) aux)"

definition auxv_block :: "('w::len word \<times> 'w word) list \<Rightarrow> 'w word list \<Rightarrow> 'w word list" where
  "auxv_block aux rest = aux_words aux @ AT_NULL # rest"

definition envp_block :: "'w::len word list \<Rightarrow> ('w word \<times> 'w word) list \<Rightarrow> 'w word list \<Rightarrow> 'w word list" where
  "envp_block envs aux rest = envs @ 0 # auxv_block aux rest"

definition argv_block :: "'w::len word list \<Rightarrow> 'w word list \<Rightarrow> ('w word \<times> 'w word) list \<Rightarrow> 'w word list \<Rightarrow> 'w word list" where
  "argv_block args envs aux rest = args @ 0 # envp_block envs aux rest"

definition stack_block :: "'w::len word list \<Rightarrow> 'w word list \<Rightarrow> ('w word \<times> 'w word) list \<Rightarrow> 'w word list \<Rightarrow> 'w word list" where
  "stack_block args envs aux rest = of_nat (length args) # argv_block args envs aux rest"

text \<open>
  The block is well formed when no environment pointer is null, no pair before the
  end carries the tag \<open>AT_NULL\<close>, the count leaves room for the four extra slots of
  \<open>new_argv\<close> within \<^verbatim>\<open>int\<close>, and a word has at least 32 bits, as on the four targets.
\<close>

definition well_formed :: "'w::len word list \<Rightarrow> 'w word list \<Rightarrow> ('w word \<times> 'w word) list \<Rightarrow> bool" where
  "well_formed args envs aux \<longleftrightarrow>
     32 \<le> LENGTH('w) \<and> length args < 2 ^ 31 - 4 \<and> 0 \<notin> set envs \<and> AT_NULL \<notin> fst ` set aux"

text \<open>The value of the last pair with the given tag.\<close>

definition last_seen :: "'w::len word \<Rightarrow> ('w word \<times> 'w word) list \<Rightarrow> 'w word option" where
  "last_seen tag aux = map_of (rev aux) tag"

text \<open>The pointer stored in the last pair with the given tag; \<open>NULL\<close> without such a pair.\<close>

definition aux_ptr :: "('w::len word \<Rightarrow> string) \<Rightarrow> 'w word \<Rightarrow> ('w word \<times> 'w word) list \<Rightarrow> cptr" where
  "aux_ptr mem tag aux = (case last_seen tag aux of None \<Rightarrow> NULL | Some v \<Rightarrow> to_ptr mem v)"

text \<open>
  The contents of \<open>buf\<close> once the link \<^verbatim>\<open>/proc/self/exe\<close> with the given target has
  been read into it: at most \<open>PATH_MAX\<close> bytes of the target, then zeros.
\<close>

definition link_buffer :: "string \<Rightarrow> string" where
  "link_buffer target =
     take PATH_MAX target @ replicate (PATH_MAX + 1 - min (length target) PATH_MAX) NUL"

text \<open>
  The order of preference for the name of the executable: the pointer of the tag
  \<open>AT_EXECFN\<close> if there is one, else the target of \<^verbatim>\<open>/proc/self/exe\<close> if it can be
  read, else \<open>argv[0]\<close>.
\<close>

definition preferred_execfn :: "os \<Rightarrow> ('w::len word \<Rightarrow> string) \<Rightarrow> 'w word \<Rightarrow> ('w word \<times> 'w word) list \<Rightarrow> cptr" where
  "preferred_execfn os mem argv0 aux =
     (if aux_ptr mem AT_EXECFN aux \<noteq> NULL then aux_ptr mem AT_EXECFN aux
      else case readlink_target os ''/proc/self/exe'' of
             Some target \<Rightarrow> Ptr (link_buffer target)
           | None \<Rightarrow> to_ptr mem argv0)"

text \<open>
  The value of the first environment entry of the form \<open>name=value\<close>, as a pointer to
  the byte after the equals sign; \<open>NULL\<close> if there is no such entry.
\<close>

definition lookup_env :: "('w::len word \<Rightarrow> string) \<Rightarrow> string \<Rightarrow> 'w word list \<Rightarrow> cptr" where
  "lookup_env mem name envs =
     (case filter (\<lambda>e. prefix (name @ ''='') (mem e)) envs of
        [] \<Rightarrow> NULL
      | e # _ \<Rightarrow> Ptr (drop (length name + 1) (mem e)))"

text \<open>The C string that a pointer points to: the bytes before the first NUL.\<close>

definition c_string :: "cptr \<Rightarrow> string" where
  "c_string p = (case p of NULL \<Rightarrow> [] | Ptr s \<Rightarrow> takeWhile (\<lambda>c. c \<noteq> NUL) s)"

text \<open>What a run shows from outside.\<close>

fun is_execve :: "'p event \<Rightarrow> bool" where
  "is_execve (Sys_execve file new_argv envp) = True"
| "is_execve e = False"

fun is_writev :: "'p event \<Rightarrow> bool" where
  "is_writev (Sys_writev fd iov) = True"
| "is_writev e = False"

fun is_exit :: "'p event \<Rightarrow> bool" where
  "is_exit (Sys_exit_group status) = True"
| "is_exit e = False"

text \<open>The argument vector that the run hands to \<open>execve\<close>.\<close>

definition built_argv :: "arch \<Rightarrow> os \<Rightarrow> ('w::len word \<Rightarrow> string) \<Rightarrow> 'w word list \<Rightarrow>
    ('w word \<times> 'w word) list \<Rightarrow> string \<Rightarrow> cptr option list" where
  "built_argv arch os mem args aux file =
     [Some (Ptr file),
      Some (if aux_ptr mem AT_PLATFORM aux = NULL then Ptr (default_platform arch)
            else aux_ptr mem AT_PLATFORM aux),
      Some (preferred_execfn os mem (hd (args @ [0])) aux)] @
     map (\<lambda>w. Some (to_ptr mem w)) (drop 1 (args @ [0])) @ [None]"

text \<open>
  A run that fails ends with one \<^verbatim>\<open>writev\<close> of a line to file descriptor 2 and
  \<^verbatim>\<open>exit_group(2)\<close>, with no other write and no other exit before them.
\<close>

definition fatal_with :: "string \<Rightarrow> 'p event list \<Rightarrow> bool" where
  "fatal_with line evs \<longleftrightarrow>
     (case rev evs of
        Sys_exit_group status # Sys_writev fd iov # before \<Rightarrow>
          status = 2 \<and> fd = 2 \<and> writev_bytes iov = line \<and>
          \<not> list_ex is_writev before \<and> \<not> list_ex is_exit before
      | _ \<Rightarrow> False)"

text \<open>The pointers of an argument vector that come before its \<open>NULL\<close> terminator.\<close>

fun argv_pointers :: "cptr option list \<Rightarrow> cptr option list" where
  "argv_pointers [] = []"
| "argv_pointers (p # ps) = (if p = Some NULL then [] else p # argv_pointers ps)"

text \<open>The three diagnostic lines.\<close>

definition refused_line :: "string \<Rightarrow> string" where
  "refused_line name = ''nacl_interp: refusing secure exec of '' @ name @ [CHR 0x0A]"

definition missing_loader_line :: string where
  "missing_loader_line =
     ''nacl_interp: environment variable NACL_INTERP_LOADER must be set to run a NaCl binary directly'' @
     [CHR 0x0A]"

text \<open>Decimal numerals, the reference for \<open>iov_int_string\<close>.\<close>

definition digit_char :: "nat \<Rightarrow> char" where
  "digit_char d = ''0123456789'' ! d"

fun dec_nat :: "nat \<Rightarrow> string" where
  "dec_nat n = (if n < 10 then [digit_char n] else dec_nat (n div 10) @ [digit_char (n mod 10)])"

declare dec_nat.simps [simp del]

definition decimal :: "int \<Rightarrow> string" where
  "decimal i = (if i < 0 then CHR ''-'' # dec_nat (nat (- i)) else dec_nat (nat i))"

definition exec_failed_line :: "string \<Rightarrow> int \<Rightarrow> string" where
  "exec_failed_line file errno =
     ''nacl_interp: failed to execute '' @ file @ '': errno='' @ decimal errno @ [CHR 0x0A]"

subsection \<open>A process start, for the examples\<close>

text \<open>
  The program was started as \<^verbatim>\<open>origProg a b\<close>, with a 64-bit stack. Two strings are
  available for the environment, one that names the loader and one that does not.
\<close>

definition ex_mem :: "64 word \<Rightarrow> string" where
  "ex_mem a =
     (if a = 0x1000 then ''origProg''
      else if a = 0x1010 then ''a''
      else if a = 0x1020 then ''b''
      else if a = 0x2000 then ''NACL_INTERP_LOADER=/bin/loader''
      else if a = 0x2100 then ''HOME=/root''
      else if a = 0x3000 then ''/path/to/prog''
      else if a = 0x3100 then ''x86_64''
      else [])"

definition ex_args :: "64 word list" where
  "ex_args = [0x1000, 0x1010, 0x1020]"

definition ex_envs :: "64 word list" where
  "ex_envs = [0x2100, 0x2000]"

definition ex_aux :: "(64 word \<times> 64 word) list" where
  "ex_aux = [(AT_SECURE, 0), (AT_EXECFN, 0x3000), (AT_PLATFORM, 0x3100)]"

text \<open>A kernel without \<^verbatim>\<open>/proc\<close> that can execute every file.\<close>

definition ex_os :: os where
  "ex_os = \<lparr>readlink_target = (\<lambda>path. None), execve_errno = (\<lambda>file. None)\<rparr>"

text \<open>A kernel that knows the executable and finds no loader: \<open>ENOENT\<close> is 2.\<close>

definition ex_os_noent :: os where
  "ex_os_noent =
     \<lparr>readlink_target = (\<lambda>path. if path = ''/proc/self/exe'' then Some ''/usr/bin/prog'' else None),
      execve_errno = (\<lambda>file. Some 2)\<rparr>"

definition ex_new_argv :: "cptr option list" where
  "ex_new_argv =
     [Some (Ptr ''/bin/loader''), Some (Ptr ''x86_64''), Some (Ptr ''/path/to/prog''),
      Some (Ptr ''a''), Some (Ptr ''b''), Some NULL, None]"

text \<open>Auxiliary vectors with a first secure-exec pair of value 1.\<close>

definition cx_aux_secure_twice :: "(64 word \<times> 64 word) list" where
  "cx_aux_secure_twice = [(AT_SECURE, 1), (AT_SECURE, 0), (AT_EXECFN, 0x3000), (AT_PLATFORM, 0x3100)]"

definition ex_aux_setuid :: "(64 word \<times> 64 word) list" where
  "ex_aux_setuid = [(AT_SECURE, 1), (AT_EXECFN, 0x3000), (AT_PLATFORM, 0x3100)]"

text \<open>An auxiliary vector without a platform pair, and an environment without the loader.\<close>

definition ex_aux_no_platform :: "(64 word \<times> 64 word) list" where
  "ex_aux_no_platform = [(AT_SECURE, 0), (AT_EXECFN, 0x3000)]"

definition ex_envs_no_loader :: "64 word list" where
  "ex_envs_no_loader = [0x2100]"

text \<open>An auxiliary vector without a pair for the name of the executable.\<close>

definition ex_aux_no_execfn :: "(64 word \<times> 64 word) list" where
  "ex_aux_no_execfn = [(AT_SECURE, 0), (AT_PLATFORM, 0x3100)]"

text \<open>The same memory with another loader in the environment string.\<close>

definition ex_mem_other :: "64 word \<Rightarrow> string" where
  "ex_mem_other a = (if a = 0x2000 then ''NACL_INTERP_LOADER=/bin/other'' else ex_mem a)"

section \<open>Properties\<close>

subsection \<open>Rendering a number\<close>

lemma sint_c_mod_10: "sint (c_mod v 10) = sint v smod 10"
proof -
  have "sint v smod 10 \<in> {- \<bar>10\<bar> + 1..\<bar>10\<bar> - 1}"
    by (rule smod_int_range) simp
  then have "- (2 ^ 31) \<le> sint v smod 10" "sint v smod 10 < 2 ^ 31"
    by auto
  then show ?thesis
    by (simp add: c_mod_def sint_sbintrunc' signed_take_bit_int_eq_self)
qed

lemma string_at_inside: "i < length s \<Longrightarrow> string_at s (int i) = Some (s ! i)"
  by (simp add: string_at_def nth_append)

lemma string_at_digit: "d < 10 \<Longrightarrow> string_at ''0123456789'' (int d) = Some (digit_char d)"
  unfolding digit_char_def by (rule string_at_inside) simp

lemma sint_c_mod_10_nat: "sint v = int n \<Longrightarrow> sint (c_mod v 10) = int (n mod 10)"
  by (simp add: sint_c_mod_10 smod_mod_positive zmod_int)

lemma sint_c_div_10_nat: "sint v = int n \<Longrightarrow> sint (c_div v 10) = int (n div 10)"
  by (cases "n = 0") (simp_all add: sint_c_div_10 signed_divide_int_def zdiv_int)

lemma c_div_10_zero_iff: "sint v = int n \<Longrightarrow> c_div v 10 = 0 \<longleftrightarrow> n < 10"
proof -
  assume a: "sint v = int n"
  have "c_div v 10 = 0 \<longleftrightarrow> sint (c_div v 10) = 0"
    by (simp add: signed_eq_0_iff)
  then show ?thesis
    unfolding sint_c_div_10_nat [OF a] by auto
qed

text \<open>On a value that is not negative the loop writes its decimal digits, if they fit.\<close>

lemma int_digits_nat:
  "sint v = int n \<Longrightarrow>
   int_digits v (p, s) =
     (if length (dec_nat n) \<le> p then Some (p - length (dec_nat n), dec_nat n @ s) else None)"
proof (induction n arbitrary: v p s rule: less_induct)
  case (less n)
  note sv = \<open>sint v = int n\<close>
  have c: "string_at ''0123456789'' (sint (c_mod v 10)) = Some (digit_char (n mod 10))"
    unfolding sint_c_mod_10_nat [OF sv] by (rule string_at_digit) simp
  show ?case
  proof (cases "n < 10")
    case True
    then have "c_div v 10 = 0"
      using c_div_10_zero_iff [OF sv] by simp
    with True show ?thesis
      by (subst int_digits.simps) (simp add: c put_before_def dec_nat.simps [of n])
  next
    case False
    then have nz: "c_div v 10 \<noteq> 0"
      using c_div_10_zero_iff [OF sv] by simp
    have lt: "n div 10 < n"
      using False by simp
    have dn: "dec_nat n = dec_nat (n div 10) @ [digit_char (n mod 10)]"
      using False by (simp add: dec_nat.simps [of n])
    show ?thesis
    proof (cases "p = 0")
      case True
      then show ?thesis
        by (subst int_digits.simps) (simp add: c put_before_def dn)
    next
      case False
      then have "int_digits v (p, s) = int_digits (c_div v 10) (p - 1, digit_char (n mod 10) # s)"
        using nz by (subst int_digits.simps) (simp add: c put_before_def)
      also have "\<dots> = (if length (dec_nat (n div 10)) \<le> p - 1
          then Some (p - 1 - length (dec_nat (n div 10)),
                     dec_nat (n div 10) @ digit_char (n mod 10) # s) else None)"
        by (rule less.IH [OF lt sint_c_div_10_nat [OF sv]])
      finally show ?thesis
        using False by (auto simp add: dn)
    qed
  qed
qed

lemma length_dec_nat: "n < 10 ^ Suc k \<Longrightarrow> length (dec_nat n) \<le> Suc k"
proof (induction k arbitrary: n)
  case 0
  then show ?case by (simp add: dec_nat.simps [of n])
next
  case (Suc k)
  show ?case
  proof (cases "n < 10")
    case True
    then show ?thesis by (simp add: dec_nat.simps [of n])
  next
    case False
    from Suc.prems have "n div 10 < 10 ^ Suc k"
      by (simp add: less_mult_imp_div_less)
    then have "length (dec_nat (n div 10)) \<le> Suc k"
      by (rule Suc.IH)
    with False show ?thesis by (simp add: dec_nat.simps [of n])
  qed
qed

lemma length_decimal: "- (2 ^ 31) \<le> i \<Longrightarrow> i < 2 ^ 31 \<Longrightarrow> length (decimal i) \<le> 11"
proof -
  assume a: "- (2 ^ 31) \<le> i" "i < 2 ^ 31"
  have "nat \<bar>i\<bar> < 10 ^ Suc 9"
    using a by simp
  then have "length (dec_nat (nat \<bar>i\<bar>)) \<le> Suc 9"
    by (rule length_dec_nat)
  then show ?thesis
    by (auto simp add: decimal_def abs_if split: if_splits)
qed

lemma sint_INT_MIN: "sint INT_MIN = - (2 ^ 31)"
  by (simp add: INT_MIN_def)

lemma sint_uminus: "v \<noteq> INT_MIN \<Longrightarrow> sint (- v) = - sint (v :: c_int)"
proof -
  assume "v \<noteq> INT_MIN"
  then have "sint v \<noteq> - (2 ^ 31)"
    using sint_INT_MIN by (metis word_eq_iff_signed)
  moreover have "- (2 ^ 31) \<le> sint v" "sint v < 2 ^ 31"
    using sint_ge [of v] sint_lt [of v] by simp_all
  ultimately have "- (2 ^ 31) \<le> - sint v" "- sint v < 2 ^ 31"
    by linarith+
  then show ?thesis
    by (simp add: sint_word_minus signed_take_bit_int_eq_self)
qed

lemma iov_int_string_decimal:
  assumes "value \<noteq> INT_MIN" and "length (decimal (sint value)) \<le> bufsz"
  shows "iov_int_string value bufsz =
           Some \<lparr>iov_base = Ptr (decimal (sint value)), iov_len = length (decimal (sint value))\<rparr>"
proof (cases "sint value < 0")
  case True
  have "sint (- value) = int (nat (- sint value))"
    using True sint_uminus [OF assms(1)] by simp
  then have "int_digits (- value) (bufsz, []) =
      (if length (dec_nat (nat (- sint value))) \<le> bufsz
       then Some (bufsz - length (dec_nat (nat (- sint value))), dec_nat (nat (- sint value)) @ [])
       else None)"
    by (rule int_digits_nat)
  with True assms(2) show ?thesis
    by (auto simp add: iov_int_string_def decimal_def put_before_def)
next
  case False
  then have "sint value = int (nat (sint value))"
    by simp
  then have "int_digits value (bufsz, []) =
      (if length (dec_nat (nat (sint value))) \<le> bufsz
       then Some (bufsz - length (dec_nat (nat (sint value))), dec_nat (nat (sint value)) @ [])
       else None)"
    by (rule int_digits_nat)
  with False assms(2) show ?thesis
    by (auto simp add: iov_int_string_def decimal_def)
qed

text \<open>
  With the 32 bytes of \<open>valbuf1\<close>, every value but the most negative one is rendered
  as its decimal numeral.
\<close>

lemma iov_int_string_32:
  assumes "value \<noteq> INT_MIN"
  shows "iov_int_string value 32 =
     Some \<lparr>iov_base = Ptr (decimal (sint value)), iov_len = length (decimal (sint value))\<rparr>"
proof -
  have "length (decimal (sint value)) \<le> 11"
    using sint_ge [of "value"] sint_lt [of "value"] by (intro length_decimal) simp_all
  then have "length (decimal (sint value)) \<le> 32"
    by simp
  with assms show ?thesis
    by (rule iov_int_string_decimal)
qed

lemma iov_int_string_renders_0: "iov_int_string 0 32 = Some \<lparr>iov_base = Ptr ''0'', iov_len = 1\<rparr>"
  by (simp add: iov_int_string_def int_digits.simps c_mod_def c_div_def string_at_def put_before_def)

lemma iov_int_string_renders_42: "iov_int_string 42 32 = Some \<lparr>iov_base = Ptr ''42'', iov_len = 2\<rparr>"
  by (simp add: iov_int_string_def int_digits.simps c_mod_def c_div_def string_at_def put_before_def)

subsection \<open>The parts of the run on a well-formed block\<close>

lemma deref_Nil [simp]: "deref [] = NUL"
  by (simp add: deref_def)

lemma deref_Cons [simp]: "deref (c # s) = c"
  by (simp add: deref_def)

lemma NUL_not_equals [simp]: "NUL \<noteq> CHR ''=''" "CHR ''='' \<noteq> NUL"
  by (simp_all add: NUL_def)

lemma environ_match_prefix:
  "NUL \<notin> set name \<Longrightarrow>
   environ_match name b =
     (if prefix (name @ ''='') b then Ptr (drop (length name + 1) b) else NULL)"
proof (induction name arbitrary: b)
  case Nil
  show ?case
    by (cases b) (auto simp add: environ_match.simps [of "[]"])
next
  case (Cons c name)
  then have c: "c \<noteq> NUL" and n: "NUL \<notin> set name"
    by auto
  show ?case
  proof (cases b)
    case Nil
    with c show ?thesis
      by (simp add: environ_match.simps [of "c # name"])
  next
    case (Cons d b')
    with c Cons.IH [OF n, of b'] show ?thesis
      by (simp add: environ_match.simps [of "c # name"])
  qed
qed

lemma my_getenv_block:
  "0 \<notin> set envs \<Longrightarrow> NUL \<notin> set name \<Longrightarrow>
   my_getenv mem name (envs @ 0 # tail) = Some (lookup_env mem name envs)"
proof (induction envs)
  case Nil
  then show ?case by (simp add: lookup_env_def)
next
  case (Cons e envs)
  then have "my_getenv mem name (envs @ 0 # tail) = Some (lookup_env mem name envs)"
    by simp
  with Cons.prems show ?case
    by (simp add: lookup_env_def environ_match_prefix)
qed

lemma NUL_notin_ENVAR [simp]: "NUL \<notin> set ENVAR"
  by (simp add: ENVAR_def NUL_def)

lemma find_null_block: "0 \<notin> set envs \<Longrightarrow> find_null (envs @ 0 # tail) = Some (0 # tail)"
  by (induction envs) auto

lemma find_at_null_block:
  "AT_NULL \<notin> fst ` set aux \<Longrightarrow> find_at_null (aux_words aux @ AT_NULL # rest) = Some (AT_NULL # rest)"
proof (induction aux)
  case Nil
  then show ?case by (cases rest) (simp_all add: aux_words_def)
next
  case (Cons p aux)
  then show ?case by (cases p) (auto simp add: aux_words_def)
qed

lemma scan_auxv_block:
  "AT_NULL \<notin> fst ` set aux \<Longrightarrow>
   scan_auxv mem (aux_words aux @ AT_NULL # rest) c =
     Some (fold (\<lambda>(a_type, a_val). aux_entry mem a_type a_val) aux c)"
proof (induction aux arbitrary: c)
  case Nil
  then show ?case by (cases rest) (simp_all add: aux_words_def)
next
  case (Cons p aux)
  then show ?case by (cases p) (auto simp add: aux_words_def)
qed


lemma small_numeral_word:
  assumes "32 \<le> LENGTH('w::len)" and "n < 2 ^ 32"
  shows "unat (of_nat n :: 'w word) = n"
proof -
  have "(2::nat) ^ 32 \<le> 2 ^ LENGTH('w)"
    using assms(1) by (intro power_increasing) simp_all
  with assms(2) have "n < 2 ^ LENGTH('w)"
    by linarith
  then show ?thesis
    by (simp add: unat_of_nat)
qed

lemma tags_distinct:
  assumes "32 \<le> LENGTH('w::len)"
  shows "(AT_EXECFN :: 'w word) \<noteq> AT_PLATFORM" "(AT_EXECFN :: 'w word) \<noteq> AT_SECURE"
    "(AT_PLATFORM :: 'w word) \<noteq> AT_SECURE"
proof -
  have e: "unat (AT_EXECFN :: 'w word) = 31"
    using small_numeral_word [OF assms, of 31] by (simp add: AT_EXECFN_def)
  have p: "unat (AT_PLATFORM :: 'w word) = 15"
    using small_numeral_word [OF assms, of 15] by (simp add: AT_PLATFORM_def)
  have s: "unat (AT_SECURE :: 'w word) = 23"
    using small_numeral_word [OF assms, of 23] by (simp add: AT_SECURE_def)
  show "(AT_EXECFN :: 'w word) \<noteq> AT_PLATFORM" using e p by auto
  show "(AT_EXECFN :: 'w word) \<noteq> AT_SECURE" using e s by auto
  show "(AT_PLATFORM :: 'w word) \<noteq> AT_SECURE" using p s by auto
qed

text \<open>The scan leaves in each variable the value of the last pair with its tag.\<close>

lemma fold_aux_entry:
  fixes aux :: "('w::len word \<times> 'w word) list"
  assumes "32 \<le> LENGTH('w)"
  shows "fold (\<lambda>(a_type, a_val). aux_entry mem a_type a_val) aux c =
     \<lparr>execfn = (case last_seen AT_EXECFN aux of None \<Rightarrow> execfn c | Some v \<Rightarrow> to_ptr mem v),
      platform = (case last_seen AT_PLATFORM aux of None \<Rightarrow> platform c | Some v \<Rightarrow> to_ptr mem v),
      secure = (case last_seen AT_SECURE aux of None \<Rightarrow> secure c | Some v \<Rightarrow> v \<noteq> 0)\<rparr>"
proof (induction aux rule: rev_induct)
  case Nil
  show ?case by (simp add: last_seen_def)
next
  case (snoc p aux)
  obtain t v where p: "p = (t, v)"
    by (cases p)
  show ?case
    using tags_distinct [OF assms]
    by (simp add: p snoc.IH last_seen_def) (simp add: aux_entry_def)
qed


lemma sint_of_nat_small: "n < 2 ^ 31 \<Longrightarrow> sint (of_nat n :: c_int) = int n"
  by (simp add: signed_of_nat signed_take_bit_int_eq_self)

lemma ucast_count:
  assumes "32 \<le> LENGTH('w::len)" and "n < 2 ^ 31"
  shows "(ucast (of_nat n :: 'w word) :: c_int) = of_nat n"
proof -
  have "unat (of_nat n :: 'w word) = n"
    using assms by (intro small_numeral_word) simp_all
  then show ?thesis
    by (metis of_nat_unat)
qed

lemma array_get_0 [simp]: "array_get (x # xs) 0 = Some x"
  by (simp add: array_get_def)

lemma array_from_1 [simp]: "array_from (x # xs) 1 = Some xs"
  by (simp add: array_from_def)

lemma array_from_append: "array_from (xs @ y # ys) (int (length xs) + 1) = Some ys"
  by (simp add: array_from_def nat_add_distrib)

lemma decode_stack_block:
  fixes args envs :: "'w::len word list"
  assumes "well_formed args envs aux"
  shows "decode_stack (stack_block args envs aux rest) =
     Some (of_nat (length args), argv_block args envs aux rest, envp_block envs aux rest,
           auxv_block aux rest)"
proof -
  from assms have w: "32 \<le> LENGTH('w)" and n: "length args < 2 ^ 31 - 4"
    and e: "0 \<notin> set envs" and a: "AT_NULL \<notin> fst ` set aux"
    by (simp_all add: well_formed_def)
  have c: "(ucast (of_nat (length args) :: 'w word) :: c_int) = of_nat (length args)"
    using w n by (intro ucast_count) simp_all
  have "sint (of_nat (Suc (length args)) :: c_int) = int (Suc (length args))"
    using n by (intro sint_of_nat_small) simp
  then have s: "sint (of_nat (length args) + 1 :: c_int) = int (length args) + 1"
    by (simp add: ac_simps)
  show ?thesis
    by (simp add: decode_stack_def stack_block_def c s argv_block_def array_from_append
        envp_block_def find_null_block [OF e] auxv_block_def find_at_null_block [OF a])
qed


lemma sint_of_nat_count: "n < 2 ^ 31 - 4 \<Longrightarrow> k \<le> n + 3 \<Longrightarrow> sint (of_nat k :: c_int) = int k"
  by (rule sint_of_nat_small) simp

lemma nth_upt_drop_take:
  "b \<le> length xs \<Longrightarrow> map (\<lambda>j. f (xs ! j)) [a..<b] = map f (drop a (take b xs))"
  by (rule nth_equalityI) (auto simp add: add.commute)

lemma copy_args_block:
  assumes n: "n < 2 ^ 31 - 4" and l: "n < length argv" and a: "length a = n + 4"
    and k: "1 \<le> k" "k \<le> n + 1"
  shows "copy_args mem argv (of_nat n) (of_nat k) a =
     Some (take (k + 2) a @ map (\<lambda>j. Some (to_ptr mem (argv ! j))) [k..<n + 1] @ drop (n + 3) a)"
  using a k
proof (induction "n + 1 - k" arbitrary: k a)
  case 0
  then have k: "k = n + 1"
    by simp
  have "sint (of_nat (n + 1) :: c_int) = int (n + 1)" "sint (of_nat n :: c_int) = int n"
    by (rule sint_of_nat_count [OF n], simp)+
  then show ?case
    using "0.prems"(1) unfolding k by (subst copy_args.simps) (simp add: numeral_3_eq_3)
next
  case (Suc d)
  then have kn: "k \<le> n" and d: "d = n + 1 - Suc k"
    by simp_all
  have sk: "sint (of_nat k :: c_int) = int k"
    by (rule sint_of_nat_count [OF n]) (use kn in simp)
  have sn: "sint (of_nat n :: c_int) = int n"
    by (rule sint_of_nat_count [OF n]) simp
  have "sint (of_nat (k + 2) :: c_int) = int (k + 2)"
    by (rule sint_of_nat_count [OF n]) (use kn in simp)
  then have sk2: "sint (2 + of_nat k :: c_int) = int k + 2"
    by (simp add: add.commute)
  let ?x = "Some (to_ptr mem (argv ! k))"
  have g: "array_get argv (int k) = Some (argv ! k)"
    using kn l by (simp add: array_get_def)
  have st: "array_set a (int k + 2) ?x = Some (a[k + 2 := ?x])"
    using kn Suc.prems(1) by (simp add: array_set_def nat_add_distrib)
  have "copy_args mem argv (of_nat n) (of_nat k) a =
      copy_args mem argv (of_nat n) (of_nat k + 1) (a[k + 2 := ?x])"
    using kn by (subst copy_args.simps) (simp only: sk sn sk2 g st of_nat_le_iff if_True option.case)
  also have "(of_nat k + 1 :: c_int) = of_nat (Suc k)"
    by simp
  finally have "copy_args mem argv (of_nat n) (of_nat k) a =
      copy_args mem argv (of_nat n) (of_nat (Suc k)) (a[k + 2 := ?x])" .
  also have "\<dots> = Some (take (Suc k + 2) (a[k + 2 := ?x]) @
      map (\<lambda>j. Some (to_ptr mem (argv ! j))) [Suc k..<n + 1] @ drop (n + 3) (a[k + 2 := ?x]))"
    using Suc.prems kn by (intro Suc.hyps(1) [OF d]) simp_all
  also have "take (Suc k + 2) (a[k + 2 := ?x]) = take (k + 2) a @ [?x]"
    using kn Suc.prems(1) by (simp add: take_Suc_conv_app_nth)
  also have "drop (n + 3) (a[k + 2 := ?x]) = drop (n + 3) a"
    using kn by simp
  finally have f: "copy_args mem argv (of_nat n) (of_nat k) a =
      Some ((take (k + 2) a @ [?x]) @
        map (\<lambda>j. Some (to_ptr mem (argv ! j))) [Suc k..<n + 1] @ drop (n + 3) a)" .
  have u: "[k..<n + 1] = k # [Suc k..<n + 1]"
    using kn by (intro upt_conv_Cons) simp
  show ?case
    unfolding f u by simp
qed


lemma new_argv_block:
  assumes n: "length args < 2 ^ 31 - 4"
  shows "fill_new_argv mem (args @ 0 # tail) (of_nat (length args))
       (replicate (length args + 4) None) l p e =
     Some ([Some l, Some p, Some e] @
               map (\<lambda>w. Some (to_ptr mem w)) (drop 1 (args @ [0])) @ [None])"
proof -
  let ?n = "length args"
  let ?a = "[Some l, Some p, Some e] @ replicate (?n + 1) None"
  have r: "replicate (?n + 4) None = [None, None, None] @ replicate (?n + 1) (None :: cptr option)"
    by (simp add: numeral_Bit0)
  have "copy_args mem (args @ 0 # tail) (of_nat ?n) (of_nat 1) ?a =
      Some (take (1 + 2) ?a @ map (\<lambda>j. Some (to_ptr mem ((args @ 0 # tail) ! j))) [1..<?n + 1] @
        drop (?n + 3) ?a)"
    by (rule copy_args_block [OF n]) simp_all
  also have "map (\<lambda>j. Some (to_ptr mem ((args @ 0 # tail) ! j))) [1..<?n + 1] =
      map (\<lambda>w. Some (to_ptr mem w)) (drop 1 (take (?n + 1) (args @ 0 # tail)))"
    by (rule nth_upt_drop_take) simp
  also have "take (?n + 1) (args @ 0 # tail) = args @ [0]"
    by simp
  also have "drop (?n + 3) ?a = [None]"
  proof -
    have "drop (?n + 3) ?a = drop ?n (replicate (?n + 1) None)"
      by (simp add: numeral_3_eq_3 del: replicate.simps)
    also have "\<dots> = replicate (?n + 1 - ?n) None"
      by (rule drop_replicate)
    finally show ?thesis
      by simp
  qed
  finally have "copy_args mem (args @ 0 # tail) (of_nat ?n) 1 ?a =
      Some ([Some l, Some p, Some e] @ map (\<lambda>w. Some (to_ptr mem w)) (drop 1 (args @ [0])) @ [None])"
    by (simp add: numeral_3_eq_3)
  then show ?thesis
    unfolding r by (simp add: fill_new_argv_def array_set_def)
qed

lemma strlen_from_takeWhile: "strlen_from s n = n + length (takeWhile (\<lambda>c. c \<noteq> NUL) s)"
  by (induction s arbitrary: n) simp_all

lemma take_my_strlen: "take (my_strlen s) s = takeWhile (\<lambda>c. c \<noteq> NUL) s"
  by (simp add: my_strlen_def strlen_from_takeWhile) (induction s, simp_all)

lemma iov_bytes_string: "iov_bytes \<lparr>iov_base = Ptr s, iov_len = my_strlen s\<rparr> = c_string (Ptr s)"
  by (simp add: iov_bytes_def c_string_def take_my_strlen)

lemma iov_bytes_pointer:
  "iov_bytes \<lparr>iov_base = p, iov_len = (case p of NULL \<Rightarrow> 0 | Ptr s \<Rightarrow> my_strlen s)\<rparr> = c_string p"
  by (cases p) (simp_all add: iov_bytes_def c_string_def take_my_strlen)

lemma iov_bytes_STRING_IOV: "iov_bytes (STRING_IOV s cond) = (if cond then s else [])"
  by (simp add: iov_bytes_def STRING_IOV_def)

text \<open>What \<open>fail\<close> does when no number is asked for, and when one is.\<close>

lemma fail_plain:
  "\<exists>iov. fail message filename NULL value1 = Some [Sys_writev 2 iov, Sys_exit_group 2] \<and>
     writev_bytes iov = ''nacl_interp: '' @ c_string (Ptr message) @ c_string filename @ [CHR 0x0A]"
  by (simp add: fail_def writev_bytes_def iov_bytes_string iov_bytes_pointer iov_bytes_STRING_IOV)
    (simp add: iov_bytes_def)

lemma fail_number:
  assumes "value1 \<noteq> INT_MIN"
  shows "\<exists>iov. fail message filename (Ptr item1) value1 = Some [Sys_writev 2 iov, Sys_exit_group 2] \<and>
     writev_bytes iov = ''nacl_interp: '' @ c_string (Ptr message) @ c_string filename @
       '': '' @ c_string (Ptr item1) @ ''='' @ decimal (sint value1) @ [CHR 0x0A]"
  by (simp add: fail_def iov_int_string_32 [OF assms] writev_bytes_def iov_bytes_string
      iov_bytes_pointer iov_bytes_STRING_IOV)
    (simp add: iov_bytes_def)


lemma list_update_replicate_same: "(xs @ replicate k x)[length xs := x] = xs @ replicate k x"
  by (cases k) (simp_all add: list_update_append list_update_beyond)

lemma self_exe_link:
  assumes "readlink_target os ''/proc/self/exe'' = Some target"
  shows "self_exe os mem argv =
     Some ([Sys_readlink ''/proc/self/exe'' PATH_MAX],
           Ptr (take PATH_MAX target @
                replicate (PATH_MAX + 1 - min (length target) PATH_MAX) NUL))"
proof -
  let ?n = "min (length target) PATH_MAX"
  let ?b = "take PATH_MAX target @ replicate (Suc PATH_MAX - ?n) NUL"
  have l: "length (take PATH_MAX target) = ?n"
    by simp
  have "?b[length (take PATH_MAX target) := NUL] = ?b"
    by (rule list_update_replicate_same)
  then have u: "?b[?n := NUL] = ?b"
    unfolding l .
  have "array_set ?b (int ?n) NUL = Some (?b[?n := NUL])"
    by (simp add: array_set_def)
  then have st: "array_set ?b (int ?n) NUL = Some ?b"
    unfolding u .
  have t: "take ?n target = take PATH_MAX target"
    by (simp add: min_def)
  have "sys_readlink os ''/proc/self/exe'' (replicate (Suc PATH_MAX) NUL) PATH_MAX = (int ?n, ?b)"
    using assms by (simp add: sys_readlink_def Let_def t del: replicate.simps)
  then show ?thesis
    by (simp add: self_exe_def Let_def st del: replicate.simps)
qed

lemma self_exe_no_link:
  assumes "readlink_target os ''/proc/self/exe'' = None"
  shows "self_exe os mem (argv0 # argv) =
     Some ([Sys_readlink ''/proc/self/exe'' PATH_MAX], to_ptr mem argv0)"
  using assms by (simp add: self_exe_def sys_readlink_def Let_def)


lemma resolve_context_block:
  fixes aux :: "('w::len word \<times> 'w word) list"
  assumes w: "32 \<le> LENGTH('w)" and a: "AT_NULL \<notin> fst ` set aux"
  shows "resolve_context os mem (argv0 # argv) (auxv_block aux rest) =
     Some (if aux_ptr mem AT_EXECFN aux = NULL then [Sys_readlink ''/proc/self/exe'' PATH_MAX] else [],
           \<lparr>execfn = preferred_execfn os mem argv0 aux,
            platform = aux_ptr mem AT_PLATFORM aux,
            secure = (last_seen AT_SECURE aux \<noteq> Some 0)\<rparr>)"
proof -
  let ?c = "fold (\<lambda>(a_type, a_val). aux_entry mem a_type a_val) aux
      \<lparr>execfn = NULL, platform = NULL, secure = True\<rparr>"
  have s: "scan_auxv mem (auxv_block aux rest) \<lparr>execfn = NULL, platform = NULL, secure = True\<rparr> = Some ?c"
    unfolding auxv_block_def by (rule scan_auxv_block [OF a])
  have c: "?c = \<lparr>execfn = aux_ptr mem AT_EXECFN aux, platform = aux_ptr mem AT_PLATFORM aux,
      secure = (last_seen AT_SECURE aux \<noteq> Some 0)\<rparr>"
    unfolding fold_aux_entry [OF w] by (auto simp add: aux_ptr_def split: option.splits)
  show ?thesis
  proof (cases "readlink_target os ''/proc/self/exe''")
    case None
    then show ?thesis
      unfolding resolve_context_def s c
      by (simp add: self_exe_no_link preferred_execfn_def)
  next
    case (Some target)
    then show ?thesis
      unfolding resolve_context_def s c
      by (simp add: self_exe_link preferred_execfn_def link_buffer_def)
  qed
qed


lemma resolve_context_stack_block:
  fixes args envs :: "'w::len word list"
  assumes "well_formed args envs aux"
  shows "resolve_context os mem (argv_block args envs aux rest) (auxv_block aux rest) =
     Some (if aux_ptr mem AT_EXECFN aux = NULL then [Sys_readlink ''/proc/self/exe'' PATH_MAX] else [],
           \<lparr>execfn = preferred_execfn os mem (hd (args @ [0])) aux,
            platform = aux_ptr mem AT_PLATFORM aux,
            secure = (last_seen AT_SECURE aux \<noteq> Some 0)\<rparr>)"
proof -
  from assms have w: "32 \<le> LENGTH('w)" and a: "AT_NULL \<notin> fst ` set aux"
    by (simp_all add: well_formed_def)
  obtain argv0 argv where v: "argv_block args envs aux rest = argv0 # argv" "hd (args @ [0]) = argv0"
    by (cases args) (simp_all add: argv_block_def)
  show ?thesis
    unfolding v by (rule resolve_context_block [OF w a])
qed

lemma sint_new_argv_size: "n < 2 ^ 31 - 4 \<Longrightarrow> sint (of_nat n + 4 :: c_int) = int n + 4"
proof -
  assume "n < 2 ^ 31 - 4"
  then have "sint (of_nat (n + 4) :: c_int) = int (n + 4)"
    by (intro sint_of_nat_small) simp
  then show ?thesis
    by (simp add: add.commute)
qed

text \<open>The whole run on a well-formed block.\<close>

lemma do_start_block:
  fixes args envs :: "'w::len word list"
  assumes wf: "well_formed args envs aux"
  shows "do_start arch os mem (stack_block args envs aux rest) =
     (let calls = (if aux_ptr mem AT_EXECFN aux = NULL
                   then [Sys_readlink ''/proc/self/exe'' PATH_MAX] else []);
          execfn' = preferred_execfn os mem (hd (args @ [0])) aux;
          platform' = (if aux_ptr mem AT_PLATFORM aux = NULL
                       then Ptr (default_platform arch) else aux_ptr mem AT_PLATFORM aux)
      in if last_seen AT_SECURE aux \<noteq> Some 0
         then do {
           evs \<leftarrow> fail ''refusing secure exec of '' execfn' NULL 0;
           Some (calls @ evs)
         }
         else case lookup_env mem ENVAR envs of
           NULL \<Rightarrow> do {
             evs \<leftarrow> fail missing_loader_message NULL NULL 0;
             Some (calls @ evs)
           }
         | Ptr file \<Rightarrow>
             let call = Sys_execve file
                   ([Some (Ptr file), Some platform', Some execfn'] @
                    map (\<lambda>w. Some (to_ptr mem w)) (drop 1 (args @ [0])) @ [None])
                   (envp_block envs aux rest)
             in case execve_errno os file of
                  None \<Rightarrow> Some (calls @ [call])
                | Some my_errno \<Rightarrow> do {
                    evs \<leftarrow> fail ''failed to execute '' (Ptr file) (Ptr ''errno'') my_errno;
                    Some (calls @ [call] @ evs)
                  })"
proof -
  from wf have n: "length args < 2 ^ 31 - 4" and e: "0 \<notin> set envs"
    by (simp_all add: well_formed_def)
  have g: "my_getenv mem ENVAR (envp_block envs aux rest) = Some (lookup_env mem ENVAR envs)"
    unfolding envp_block_def by (rule my_getenv_block [OF e]) simp
  have z: "nat (int (length args) + 4) = length args + 4"
    by simp
  have f: "\<And>l p x. fill_new_argv mem (argv_block args envs aux rest) (of_nat (length args))
      (replicate (length args + 4) None) l p x =
      Some ([Some l, Some p, Some x] @ map (\<lambda>w. Some (to_ptr mem w)) (drop 1 (args @ [0])) @ [None])"
    unfolding argv_block_def by (rule new_argv_block [OF n])
  show ?thesis
    by (simp add: do_start_def decode_stack_block [OF wf] resolve_context_stack_block [OF wf]
        g sint_new_argv_size [OF n] z f Let_def split: cptr.splits option.splits
        del: replicate.simps)
qed


lemma fatal_with_append:
  assumes "\<not> list_ex is_writev before" and "\<not> list_ex is_exit before"
    and "writev_bytes iov = line"
  shows "fatal_with line (before @ [Sys_writev 2 iov, Sys_exit_group 2])"
  using assms by (simp add: fatal_with_def list_ex_iff)

lemma c_string_message [simp]:
  "c_string (Ptr ''refusing secure exec of '') = ''refusing secure exec of ''"
  "c_string (Ptr ''failed to execute '') = ''failed to execute ''"
  "c_string (Ptr ''errno'') = ''errno''"
  "c_string (Ptr missing_loader_message) =
     ''environment variable NACL_INTERP_LOADER must be set to run a NaCl binary directly''"
  "c_string NULL = []"
  by (simp_all add: c_string_def NUL_def ENVAR_def missing_loader_message_def)

lemma run_refused:
  fixes args envs :: "'w::len word list"
  assumes wf: "well_formed args envs aux" and s: "last_seen AT_SECURE aux \<noteq> Some 0"
  shows "\<exists>evs. do_start arch os mem (stack_block args envs aux rest) = Some evs \<and>
     fatal_with (refused_line (c_string (preferred_execfn os mem (hd (args @ [0])) aux))) evs \<and>
     \<not> list_ex is_execve evs"
proof -
  let ?calls = "if aux_ptr mem AT_EXECFN aux = NULL
      then [Sys_readlink ''/proc/self/exe'' PATH_MAX :: 'w word event] else []"
  let ?e = "preferred_execfn os mem (hd (args @ [0])) aux"
  obtain iov :: "kernel_iovec list"
    where f: "fail ''refusing secure exec of '' ?e NULL 0 =
        Some [Sys_writev 2 iov, Sys_exit_group 2 :: 'w word event]"
      and b: "writev_bytes iov = ''nacl_interp: '' @ c_string (Ptr ''refusing secure exec of '') @
        c_string ?e @ [CHR 0x0A]"
    using fail_plain by blast
  have d: "do_start arch os mem (stack_block args envs aux rest) =
      Some (?calls @ [Sys_writev 2 iov, Sys_exit_group 2])"
    using s by (simp add: do_start_block [OF wf] f)
  have "fatal_with (refused_line (c_string ?e)) (?calls @ [Sys_writev 2 iov, Sys_exit_group 2])"
    by (rule fatal_with_append) (simp_all add: b refused_line_def)
  moreover have "\<not> list_ex is_execve (?calls @ [Sys_writev 2 iov, Sys_exit_group 2])"
    by simp
  ultimately show ?thesis
    using d by blast
qed


lemma run_missing_loader:
  fixes args envs :: "'w::len word list"
  assumes wf: "well_formed args envs aux" and s: "last_seen AT_SECURE aux = Some 0"
    and l: "lookup_env mem ENVAR envs = NULL"
  shows "\<exists>evs. do_start arch os mem (stack_block args envs aux rest) = Some evs \<and>
     fatal_with missing_loader_line evs \<and> \<not> list_ex is_execve evs"
proof -
  let ?calls = "if aux_ptr mem AT_EXECFN aux = NULL
      then [Sys_readlink ''/proc/self/exe'' PATH_MAX :: 'w word event] else []"
  let ?m = "missing_loader_message"
  obtain iov :: "kernel_iovec list"
    where f: "fail ?m NULL NULL 0 = Some [Sys_writev 2 iov, Sys_exit_group 2 :: 'w word event]"
      and b: "writev_bytes iov = ''nacl_interp: '' @ c_string (Ptr ?m) @ c_string NULL @ [CHR 0x0A]"
    using fail_plain by blast
  have d: "do_start arch os mem (stack_block args envs aux rest) =
      Some (?calls @ [Sys_writev 2 iov, Sys_exit_group 2])"
    using s l f by (simp add: do_start_block [OF wf])
  have "fatal_with missing_loader_line (?calls @ [Sys_writev 2 iov, Sys_exit_group 2])"
    by (rule fatal_with_append) (simp_all add: b missing_loader_line_def)
  moreover have "\<not> list_ex is_execve (?calls @ [Sys_writev 2 iov, Sys_exit_group 2])"
    by simp
  ultimately show ?thesis
    using d by blast
qed

lemma run_exec_failed:
  fixes args envs :: "'w::len word list"
  assumes wf: "well_formed args envs aux" and s: "last_seen AT_SECURE aux = Some 0"
    and l: "lookup_env mem ENVAR envs = Ptr file"
    and x: "execve_errno os file = Some my_errno" and m: "my_errno \<noteq> INT_MIN"
  shows "\<exists>before iov. do_start arch os mem (stack_block args envs aux rest) =
       Some (before @ [Sys_execve file (built_argv arch os mem args aux file) (envp_block envs aux rest),
                       Sys_writev 2 iov, Sys_exit_group 2]) \<and>
     \<not> list_ex is_writev before \<and> \<not> list_ex is_exit before \<and> \<not> list_ex is_execve before \<and>
     writev_bytes iov = exec_failed_line (c_string (Ptr file)) (sint my_errno)"
proof -
  let ?calls = "if aux_ptr mem AT_EXECFN aux = NULL
      then [Sys_readlink ''/proc/self/exe'' PATH_MAX :: 'w word event] else []"
  obtain iov :: "kernel_iovec list"
    where f: "fail ''failed to execute '' (Ptr file) (Ptr ''errno'') my_errno =
        Some [Sys_writev 2 iov, Sys_exit_group 2 :: 'w word event]"
      and b: "writev_bytes iov = ''nacl_interp: '' @ c_string (Ptr ''failed to execute '') @
        c_string (Ptr file) @ '': '' @ c_string (Ptr ''errno'') @ ''='' @ decimal (sint my_errno) @
        [CHR 0x0A]"
    using fail_number [OF m] by blast
  have "do_start arch os mem (stack_block args envs aux rest) =
      Some (?calls @ [Sys_execve file (built_argv arch os mem args aux file) (envp_block envs aux rest),
                      Sys_writev 2 iov, Sys_exit_group 2])"
    using s l x by (simp add: do_start_block [OF wf] f built_argv_def Let_def)
  moreover have "writev_bytes iov = exec_failed_line (c_string (Ptr file)) (sint my_errno)"
    by (simp add: b exec_failed_line_def)
  moreover have "\<not> list_ex is_writev ?calls" "\<not> list_ex is_exit ?calls" "\<not> list_ex is_execve ?calls"
    by simp_all
  ultimately show ?thesis
    by blast
qed

lemma run_exec_succeeds:
  fixes args envs :: "'w::len word list"
  assumes wf: "well_formed args envs aux" and s: "last_seen AT_SECURE aux = Some 0"
    and l: "lookup_env mem ENVAR envs = Ptr file"
    and x: "execve_errno os file = None"
  shows "do_start arch os mem (stack_block args envs aux rest) =
       Some ((if aux_ptr mem AT_EXECFN aux = NULL then [Sys_readlink ''/proc/self/exe'' PATH_MAX] else []) @
             [Sys_execve file (built_argv arch os mem args aux file) (envp_block envs aux rest)])"
  using s l x by (simp add: do_start_block [OF wf] built_argv_def Let_def)


subsection \<open>Facts about the examples\<close>

lemma ex_tags [simp]:
  "(AT_SECURE :: 64 word) \<noteq> AT_NULL" "(AT_EXECFN :: 64 word) \<noteq> AT_NULL"
  "(AT_PLATFORM :: 64 word) \<noteq> AT_NULL" "(AT_NULL :: 64 word) \<noteq> AT_SECURE"
  "(AT_NULL :: 64 word) \<noteq> AT_EXECFN" "(AT_NULL :: 64 word) \<noteq> AT_PLATFORM"
  "(AT_SECURE :: 64 word) \<noteq> AT_EXECFN" "(AT_SECURE :: 64 word) \<noteq> AT_PLATFORM"
  "(AT_EXECFN :: 64 word) \<noteq> AT_SECURE" "(AT_EXECFN :: 64 word) \<noteq> AT_PLATFORM"
  "(AT_PLATFORM :: 64 word) \<noteq> AT_SECURE" "(AT_PLATFORM :: 64 word) \<noteq> AT_EXECFN"
  by (simp_all add: AT_NULL_def AT_SECURE_def AT_EXECFN_def AT_PLATFORM_def)

lemma ex_well_formed: "well_formed ex_args ex_envs ex_aux"
  by (simp add: well_formed_def ex_args_def ex_envs_def ex_aux_def)

lemma ex_lookup_env: "lookup_env ex_mem ENVAR ex_envs = Ptr ''/bin/loader''"
  by (simp add: lookup_env_def ENVAR_def ex_envs_def ex_mem_def)

lemma ex_to_ptr [simp]:
  "to_ptr ex_mem 0x1000 = Ptr ''origProg''" "to_ptr ex_mem 0x1010 = Ptr ''a''"
  "to_ptr ex_mem 0x1020 = Ptr ''b''" "to_ptr ex_mem 0x3000 = Ptr ''/path/to/prog''"
  "to_ptr ex_mem 0x3100 = Ptr ''x86_64''" "to_ptr ex_mem 0 = NULL"
  by (simp_all add: to_ptr_def ex_mem_def)

subsection \<open>The \<open>execve\<close> call of a run\<close>

lemma fail_shape:
  "fail message filename item1 value1 = Some evs \<Longrightarrow> \<exists>iov. evs = [Sys_writev 2 iov, Sys_exit_group 2]"
  by (auto simp add: fail_def Let_def split: if_splits bind_splits)

text \<open>An \<open>execve\<close> call in a run is the one that the run on a well-formed block makes.\<close>

lemma execve_in_run:
  fixes args envs :: "'w::len word list"
  assumes wf: "well_formed args envs aux"
    and d: "do_start arch os mem (stack_block args envs aux rest) = Some evs"
    and x: "Sys_execve file new_argv envp \<in> set evs"
  shows "last_seen AT_SECURE aux = Some 0 \<and> lookup_env mem ENVAR envs = Ptr file \<and>
         new_argv = built_argv arch os mem args aux file \<and> envp = envp_block envs aux rest"
  using d x unfolding do_start_block [OF wf]
  by (auto simp add: Let_def built_argv_def
      split: if_splits cptr.splits option.splits bind_splits dest!: fail_shape)


text \<open>
  With no argument at all the loop does not run, and the slot after the name of the
  executable, where the terminator belongs, is never assigned.
\<close>

lemma new_argv_without_arguments:
  fixes envs :: "'w::len word list"
  assumes "well_formed [] envs aux"
    and "do_start arch os mem (stack_block [] envs aux rest) = Some evs"
    and "Sys_execve file new_argv envp \<in> set evs"
  shows "\<exists>platform' execfn'. new_argv = [Some (Ptr file), Some platform', Some execfn', None]"
  using execve_in_run [OF assms] by (simp add: built_argv_def)

lemma fatal_with_unique:
  assumes "fatal_with line evs" and "fatal_with line' evs"
  shows "line = line'"
proof (cases "rev evs")
  case Nil
  with assms(1) show ?thesis
    by (simp add: fatal_with_def)
next
  case outer: (Cons e r)
  show ?thesis
  proof (cases r)
    case Nil
    with outer assms(1) show ?thesis
      by (cases e) (simp_all add: fatal_with_def)
  next
    case (Cons e' before)
    with outer assms show ?thesis
      by (cases e; cases e') (simp_all add: fatal_with_def)
  qed
qed

lemma ex_run:
  "do_start X86_64 ex_os ex_mem (stack_block ex_args ex_envs ex_aux []) =
     Some [Sys_execve ''/bin/loader'' ex_new_argv (envp_block ex_envs ex_aux [])]"
proof -
  have l: "last_seen AT_SECURE ex_aux = Some 0"
    by (simp add: last_seen_def ex_aux_def)
  have x: "execve_errno ex_os ''/bin/loader'' = None"
    by (simp add: ex_os_def)
  have e: "aux_ptr ex_mem AT_EXECFN ex_aux = Ptr ''/path/to/prog''"
    by (simp add: aux_ptr_def last_seen_def ex_aux_def)
  have p: "aux_ptr ex_mem AT_PLATFORM ex_aux = Ptr ''x86_64''"
    by (simp add: aux_ptr_def last_seen_def ex_aux_def)
  have b: "built_argv X86_64 ex_os ex_mem ex_args ex_aux ''/bin/loader'' = ex_new_argv"
    by (simp add: built_argv_def e p preferred_execfn_def ex_args_def ex_new_argv_def)
  show ?thesis
    using run_exec_succeeds [OF ex_well_formed l ex_lookup_env x, where arch = X86_64 and rest = "[]"]
    by (simp add: e b)
qed

lemma ex_no_loader: "\<forall>e\<in>set ex_envs_no_loader. \<not> prefix (ENVAR @ ''='') (ex_mem e)"
  by (simp add: ex_envs_no_loader_def ENVAR_def ex_mem_def)

subsection \<open>The buffer of the link target\<close>

lemma takeWhile_replicate_not: "\<not> P x \<Longrightarrow> takeWhile P (replicate k x) = []"
  by (cases k) simp_all

lemma takeWhile_append_replicate:
  "\<not> P x \<Longrightarrow> takeWhile P (xs @ replicate k x) = takeWhile P xs"
  by (induction xs) (simp_all add: takeWhile_replicate_not)

lemma c_string_link_buffer:
  "c_string (Ptr (link_buffer target)) = takeWhile (\<lambda>c. c \<noteq> NUL) (take PATH_MAX target)"
  by (simp add: c_string_def link_buffer_def takeWhile_append_replicate)

lemma length_link_buffer: "length (link_buffer target) = PATH_MAX + 1"
  by (simp add: link_buffer_def)

lemma link_buffer_terminated: "link_buffer target ! min (length target) PATH_MAX = NUL"
proof -
  let ?n = "min (length target) PATH_MAX"
  have "length (take PATH_MAX target) = ?n"
    by simp
  then have "link_buffer target ! ?n = replicate (PATH_MAX + 1 - ?n) NUL ! 0"
    unfolding link_buffer_def by (metis add.right_neutral nth_append_length_plus)
  then show ?thesis
    by simp
qed

lemma take_link_buffer: "take (min (length target) PATH_MAX) (link_buffer target) = take PATH_MAX target"
  by (simp add: link_buffer_def min_def)

lemma aux_ptr_absent:
  "last_seen AT_EXECFN aux \<in> {None, Some 0} \<Longrightarrow> aux_ptr mem AT_EXECFN aux = NULL"
  by (auto simp add: aux_ptr_def to_ptr_def)

lemma hd_argv_block: "argv_block args envs aux rest ! 0 = hd (args @ [0])"
  by (cases args) (simp_all add: argv_block_def)

lemma ex_no_execfn_well_formed: "well_formed ex_args ex_envs ex_aux_no_execfn"
  by (simp add: well_formed_def ex_args_def ex_envs_def ex_aux_no_execfn_def)

lemma ex_no_execfn: "last_seen AT_EXECFN ex_aux_no_execfn = None"
  by (simp add: last_seen_def ex_aux_no_execfn_def)

section \<open>The claims\<close>

text \<open>
  C1, as amended. The flag \<open>secure\<close> is true unless the last pair of the auxiliary
  vector with the tag \<open>AT_SECURE\<close> has the value zero. Whenever it is true, in particular
  whenever that last pair has a nonzero value, the run makes no \<open>execve\<close> call: it writes
  the line \<^verbatim>\<open>nacl_interp: refusing secure exec of <name>\<close> and exits with status 2.
\<close>

theorem secure_exec_refused:
  fixes args envs :: "'w::len word list"
  assumes "well_formed args envs aux"
  shows "\<exists>calls c.
           resolve_context os mem (argv_block args envs aux rest) (auxv_block aux rest) = Some (calls, c) \<and>
           (secure c \<longleftrightarrow> last_seen AT_SECURE aux \<noteq> Some 0) \<and>
           (\<forall>v. last_seen AT_SECURE aux = Some v \<and> v \<noteq> 0 \<longrightarrow> secure c) \<and>
           (secure c \<longrightarrow>
             (\<exists>evs. do_start arch os mem (stack_block args envs aux rest) = Some evs \<and>
                    fatal_with (refused_line (c_string (execfn c))) evs \<and>
                    \<not> list_ex is_execve evs))"
proof (cases "last_seen AT_SECURE aux \<noteq> Some 0")
  case True
  show ?thesis
    using run_refused [OF assms True, where arch = arch and os = os and mem = mem and rest = rest] True
    by (auto simp add: resolve_context_stack_block [OF assms])
next
  case False
  then show ?thesis
    by (simp add: resolve_context_stack_block [OF assms])
qed

text \<open>A start with \<open>AT_SECURE = 1\<close> is refused.\<close>

theorem secure_exec_refused_witness:
  "well_formed ex_args ex_envs ex_aux_setuid \<and>
   last_seen AT_SECURE ex_aux_setuid = Some 1 \<and>
   (\<exists>calls c.
      resolve_context ex_os ex_mem (argv_block ex_args ex_envs ex_aux_setuid [])
        (auxv_block ex_aux_setuid []) = Some (calls, c) \<and>
      secure c \<and>
      (\<exists>evs. do_start X86_64 ex_os ex_mem (stack_block ex_args ex_envs ex_aux_setuid []) = Some evs \<and>
             fatal_with (refused_line (c_string (execfn c))) evs \<and>
             \<not> list_ex is_execve evs))"
proof -
  have w: "well_formed ex_args ex_envs ex_aux_setuid"
    by (simp add: well_formed_def ex_args_def ex_envs_def ex_aux_setuid_def)
  have l: "last_seen AT_SECURE ex_aux_setuid = Some 1"
    by (simp add: last_seen_def ex_aux_setuid_def)
  show ?thesis
    using secure_exec_refused [OF w, where os = ex_os and mem = ex_mem and rest = "[]" and arch = X86_64] w l
    by auto
qed

text \<open>
  C1, as stated, fails. It says that an auxiliary vector that contains a secure-exec
  pair with a nonzero value is always refused. Here the vector contains the pair
  \<open>(AT_SECURE, 1)\<close> followed by \<open>(AT_SECURE, 0)\<close>; the later pair wins and the
  loader is executed.
\<close>

theorem secure_tag_counterexample:
  "(AT_SECURE, 1) \<in> set cx_aux_secure_twice \<and>
   do_start X86_64 ex_os ex_mem (stack_block ex_args ex_envs cx_aux_secure_twice []) =
     Some [Sys_execve ''/bin/loader'' ex_new_argv (envp_block ex_envs cx_aux_secure_twice [])]"
proof -
  have w: "well_formed ex_args ex_envs cx_aux_secure_twice"
    by (simp add: well_formed_def ex_args_def ex_envs_def cx_aux_secure_twice_def)
  have l: "last_seen AT_SECURE cx_aux_secure_twice = Some 0"
    by (simp add: last_seen_def cx_aux_secure_twice_def)
  have x: "execve_errno ex_os ''/bin/loader'' = None"
    by (simp add: ex_os_def)
  have e: "aux_ptr ex_mem AT_EXECFN cx_aux_secure_twice = Ptr ''/path/to/prog''"
    by (simp add: aux_ptr_def last_seen_def cx_aux_secure_twice_def)
  have p: "aux_ptr ex_mem AT_PLATFORM cx_aux_secure_twice = Ptr ''x86_64''"
    by (simp add: aux_ptr_def last_seen_def cx_aux_secure_twice_def)
  have b: "built_argv X86_64 ex_os ex_mem ex_args cx_aux_secure_twice ''/bin/loader'' = ex_new_argv"
    by (simp add: built_argv_def e p preferred_execfn_def ex_args_def ex_new_argv_def)
  show ?thesis
    using run_exec_succeeds [OF w l ex_lookup_env x, where arch = X86_64 and rest = "[]"]
    by (simp add: e b) (simp add: cx_aux_secure_twice_def)
qed

text \<open>
  C2, as amended. For every well-formed stack block with at least one argument, the
  argument vector of the \<open>execve\<close> call is exactly the loader path, the platform, the
  name of the executable, and then \<open>argv[1]\<close> to \<open>argv[argc - 1]\<close> in their order,
  followed by the \<open>NULL\<close> terminator: \<open>argv[0]\<close> is dropped and nothing else is.
  These are \<open>argc + 2\<close> pointers before the terminator; the array has \<open>argc + 4\<close>
  slots, and the last one is never assigned.
\<close>

theorem new_argv_layout:
  fixes args envs :: "'w::len word list"
  assumes "well_formed args envs aux" and "args \<noteq> []"
    and "do_start arch os mem (stack_block args envs aux rest) = Some evs"
    and "Sys_execve file new_argv envp \<in> set evs"
  shows "new_argv =
           map Some ([Ptr file,
                      if aux_ptr mem AT_PLATFORM aux = NULL then Ptr (default_platform arch)
                      else aux_ptr mem AT_PLATFORM aux,
                      preferred_execfn os mem (hd args) aux] @
                     map (to_ptr mem) (tl args)) @
           [Some NULL, None] \<and>
         length ([Ptr file,
                  if aux_ptr mem AT_PLATFORM aux = NULL then Ptr (default_platform arch)
                  else aux_ptr mem AT_PLATFORM aux,
                  preferred_execfn os mem (hd args) aux] @
                 map (to_ptr mem) (tl args)) = length args + 2 \<and>
         lookup_env mem ENVAR envs = Ptr file"
proof -
  from assms(2) obtain a args' where a: "args = a # args'"
    by (cases args) auto
  from execve_in_run [OF assms(1,3,4)]
  have "new_argv = built_argv arch os mem args aux file" and "lookup_env mem ENVAR envs = Ptr file"
    by simp_all
  then show ?thesis
    by (simp add: built_argv_def a to_ptr_def)
qed

text \<open>The example of the specification: \<^verbatim>\<open>origProg a b\<close> with the loader \<^verbatim>\<open>/bin/loader\<close>.\<close>

theorem new_argv_layout_witness:
  "well_formed ex_args ex_envs ex_aux \<and> ex_args \<noteq> [] \<and>
   do_start X86_64 ex_os ex_mem (stack_block ex_args ex_envs ex_aux []) =
     Some [Sys_execve ''/bin/loader'' ex_new_argv (envp_block ex_envs ex_aux [])] \<and>
   ex_new_argv =
     map Some [Ptr ''/bin/loader'', Ptr ''x86_64'', Ptr ''/path/to/prog'', Ptr ''a'', Ptr ''b''] @
     [Some NULL, None] \<and>
   length [Ptr ''/bin/loader'', Ptr ''x86_64'', Ptr ''/path/to/prog'', Ptr ''a'', Ptr ''b''] =
     length ex_args + 2"
proof -
  have n: "ex_args \<noteq> []"
    by (simp add: ex_args_def)
  have i: "Sys_execve ''/bin/loader'' ex_new_argv (envp_block ex_envs ex_aux []) \<in>
      set [Sys_execve ''/bin/loader'' ex_new_argv (envp_block ex_envs ex_aux [])]"
    by simp
  show ?thesis
    using new_argv_layout [OF ex_well_formed n ex_run i] ex_well_formed n ex_run
    by (simp add: ex_new_argv_def ex_args_def)
qed

text \<open>
  C2, as stated, fails: it gives the vector \<open>argc + 3\<close> pointers before the terminator.
  In the example \<open>argc\<close> is 3 and the vector has 5 pointers before its terminator.
\<close>

theorem new_argv_length_counterexample:
  "do_start X86_64 ex_os ex_mem (stack_block ex_args ex_envs ex_aux []) =
     Some [Sys_execve ''/bin/loader'' ex_new_argv (envp_block ex_envs ex_aux [])] \<and>
   length ex_args = 3 \<and>
   length (argv_pointers ex_new_argv) = 5 \<and>
   \<not> length (argv_pointers ex_new_argv) = length ex_args + 3"
  using ex_run by (simp add: ex_new_argv_def ex_args_def)

text \<open>
  C3. The claim is that \<open>iov_int_string\<close> renders every signed 32-bit value as its
  decimal numeral, the most negative value included. For the most negative value the
  code does not: \<^verbatim>\<open>value = -value\<close> leaves it negative, \<^verbatim>\<open>value % 10\<close> is then \<open>-8\<close>,
  and \<^verbatim>\<open>"0123456789"[-8]\<close> reads outside the string constant. No numeral is produced.
\<close>

theorem iov_int_string_most_negative:
  "sint (- 2147483648 :: c_int) = - 2147483648 \<and>
   sint (c_mod (- (- 2147483648)) 10) = - 8 \<and>
   string_at ''0123456789'' (- 8) = None \<and>
   iov_int_string (- 2147483648) 32 = None"
  by (simp add: iov_int_string_def int_digits.simps c_mod_def string_at_def)

text \<open>
  C4, as amended. For every well-formed stack block whose last secure-exec pair has the
  value zero and whose environment has no entry of the form
  \<^verbatim>\<open>NACL_INTERP_LOADER=value\<close>, the run writes the line that asks for the variable, exits
  with status 2, and makes no \<open>execve\<close> call, whatever else the auxiliary vector holds.
\<close>

theorem missing_loader_env:
  fixes args envs :: "'w::len word list"
  assumes "well_formed args envs aux" and "last_seen AT_SECURE aux = Some 0"
    and "\<forall>e\<in>set envs. \<not> prefix (ENVAR @ ''='') (mem e)"
  shows "\<exists>evs. do_start arch os mem (stack_block args envs aux rest) = Some evs \<and>
           fatal_with missing_loader_line evs \<and> \<not> list_ex is_execve evs"
proof -
  from assms(3) have "filter (\<lambda>e. prefix (ENVAR @ ''='') (mem e)) envs = []"
    by (simp add: filter_empty_conv)
  then have "lookup_env mem ENVAR envs = NULL"
    by (simp add: lookup_env_def)
  with assms(1,2) show ?thesis
    by (rule run_missing_loader)
qed

text \<open>An environment that holds only \<^verbatim>\<open>HOME=/root\<close>.\<close>

theorem missing_loader_env_witness:
  "well_formed ex_args ex_envs_no_loader ex_aux \<and>
   last_seen AT_SECURE ex_aux = Some 0 \<and>
   ex_envs_no_loader = [0x2100] \<and> \<not> prefix (ENVAR @ ''='') (ex_mem 0x2100) \<and>
   (\<exists>evs. do_start X86_64 ex_os ex_mem (stack_block ex_args ex_envs_no_loader ex_aux []) = Some evs \<and>
          fatal_with missing_loader_line evs \<and> \<not> list_ex is_execve evs)"
proof -
  have w: "well_formed ex_args ex_envs_no_loader ex_aux"
    by (simp add: well_formed_def ex_args_def ex_envs_no_loader_def ex_aux_def)
  have l: "last_seen AT_SECURE ex_aux = Some 0"
    by (simp add: last_seen_def ex_aux_def)
  show ?thesis
    using missing_loader_env [OF w l ex_no_loader, where arch = X86_64 and os = ex_os and rest = "[]"]
      w l ex_no_loader
    by (simp add: ex_envs_no_loader_def)
qed

text \<open>
  C4, as stated, fails: the missing variable is not reported regardless of the auxiliary
  vector. With the same environment and \<open>AT_SECURE = 1\<close> the run reports the refusal of
  the secure exec, since that check comes first.
\<close>

theorem missing_loader_env_counterexample:
  "\<not> prefix (ENVAR @ ''='') (ex_mem 0x2100) \<and>
   map_option (fatal_with (refused_line ''/path/to/prog''))
     (do_start X86_64 ex_os ex_mem (stack_block ex_args [0x2100] ex_aux_setuid [])) = Some True \<and>
   map_option (fatal_with missing_loader_line)
     (do_start X86_64 ex_os ex_mem (stack_block ex_args [0x2100] ex_aux_setuid [])) = Some False"
proof -
  have w: "well_formed ex_args [0x2100] ex_aux_setuid"
    by (simp add: well_formed_def ex_args_def ex_aux_setuid_def)
  have l: "last_seen AT_SECURE ex_aux_setuid \<noteq> Some 0"
    by (simp add: last_seen_def ex_aux_setuid_def)
  have e: "c_string (preferred_execfn ex_os ex_mem (hd (ex_args @ [0])) ex_aux_setuid) = ''/path/to/prog''"
    by (simp add: preferred_execfn_def aux_ptr_def last_seen_def ex_aux_setuid_def c_string_def NUL_def)
  obtain evs where d: "do_start X86_64 ex_os ex_mem (stack_block ex_args [0x2100] ex_aux_setuid []) = Some evs"
    and f: "fatal_with (refused_line ''/path/to/prog'') evs"
    using run_refused [OF w l, where arch = X86_64 and os = ex_os and mem = ex_mem and rest = "[]"]
    unfolding e by blast
  have "refused_line ''/path/to/prog'' \<noteq> missing_loader_line"
    by (simp add: refused_line_def missing_loader_line_def)
  with f have "\<not> fatal_with missing_loader_line evs"
    using fatal_with_unique by blast
  with d f show ?thesis
    by (simp add: ENVAR_def ex_mem_def)
qed

text \<open>
  C5. The name of the executable follows this order of preference: the pointer of the
  last pair with the tag \<open>AT_EXECFN\<close>, if there is one and it is not null; otherwise the
  target of the link \<^verbatim>\<open>/proc/self/exe\<close> as \<open>readlink\<close> stored it, if that succeeds;
  otherwise \<open>argv[0]\<close>. In particular, without such a pair and without a readable
  link it is \<open>argv[0]\<close>. A pair whose value is the null pointer names no file, and
  the code treats it like a missing pair.
\<close>

theorem execfn_preference:
  fixes args envs :: "'w::len word list"
  assumes "well_formed args envs aux"
  shows "\<exists>calls c.
     resolve_context os mem (argv_block args envs aux rest) (auxv_block aux rest) = Some (calls, c) \<and>
     (\<forall>v. last_seen AT_EXECFN aux = Some v \<and> v \<noteq> 0 \<longrightarrow> execfn c = Ptr (mem v)) \<and>
     (\<forall>target. last_seen AT_EXECFN aux \<in> {None, Some 0} \<and>
        readlink_target os ''/proc/self/exe'' = Some target \<longrightarrow>
        execfn c = Ptr (link_buffer target) \<and>
        (NUL \<notin> set target \<longrightarrow> c_string (execfn c) = take PATH_MAX target)) \<and>
     (last_seen AT_EXECFN aux \<in> {None, Some 0} \<and> readlink_target os ''/proc/self/exe'' = None \<longrightarrow>
        execfn c = to_ptr mem (argv_block args envs aux rest ! 0))"
proof -
  let ?c = "\<lparr>execfn = preferred_execfn os mem (hd (args @ [0])) aux,
      platform = aux_ptr mem AT_PLATFORM aux, secure = (last_seen AT_SECURE aux \<noteq> Some 0)\<rparr>"
  have 1: "\<forall>v. last_seen AT_EXECFN aux = Some v \<and> v \<noteq> 0 \<longrightarrow> execfn ?c = Ptr (mem v)"
    by (simp add: preferred_execfn_def aux_ptr_def to_ptr_def)
  have 2: "\<forall>target. last_seen AT_EXECFN aux \<in> {None, Some 0} \<and>
        readlink_target os ''/proc/self/exe'' = Some target \<longrightarrow>
        execfn ?c = Ptr (link_buffer target) \<and>
        (NUL \<notin> set target \<longrightarrow> c_string (execfn ?c) = take PATH_MAX target)"
  proof (intro allI impI, elim conjE)
    fix target
    assume a: "last_seen AT_EXECFN aux \<in> {None, Some 0}"
      and r: "readlink_target os ''/proc/self/exe'' = Some target"
    have e: "execfn ?c = Ptr (link_buffer target)"
      using aux_ptr_absent [OF a] r by (simp add: preferred_execfn_def)
    have "NUL \<notin> set target \<longrightarrow> takeWhile (\<lambda>c. c \<noteq> NUL) (take PATH_MAX target) = take PATH_MAX target"
      by (auto simp add: takeWhile_eq_all_conv dest: in_set_takeD)
    then show "execfn ?c = Ptr (link_buffer target) \<and>
        (NUL \<notin> set target \<longrightarrow> c_string (execfn ?c) = take PATH_MAX target)"
      unfolding e c_string_link_buffer by simp
  qed
  have 3: "last_seen AT_EXECFN aux \<in> {None, Some 0} \<and> readlink_target os ''/proc/self/exe'' = None \<longrightarrow>
        execfn ?c = to_ptr mem (argv_block args envs aux rest ! 0)"
    using aux_ptr_absent [of aux mem] by (auto simp add: preferred_execfn_def hd_argv_block)
  show ?thesis
    unfolding resolve_context_stack_block [OF assms] using 1 2 3 by blast
qed

text \<open>No pair and no \<^verbatim>\<open>/proc\<close>: the name is \<open>argv[0]\<close>, here \<^verbatim>\<open>origProg\<close>.\<close>

theorem execfn_preference_witness:
  "well_formed ex_args ex_envs ex_aux_no_execfn \<and>
   last_seen AT_EXECFN ex_aux_no_execfn \<in> {None, Some 0} \<and>
   readlink_target ex_os ''/proc/self/exe'' = None \<and>
   argv_block ex_args ex_envs ex_aux_no_execfn [] ! 0 = 0x1000 \<and>
   (\<exists>calls c.
      resolve_context ex_os ex_mem (argv_block ex_args ex_envs ex_aux_no_execfn [])
        (auxv_block ex_aux_no_execfn []) = Some (calls, c) \<and>
      execfn c = Ptr ''origProg'')"
proof -
  have r: "readlink_target ex_os ''/proc/self/exe'' = None"
    by (simp add: ex_os_def)
  have a: "argv_block ex_args ex_envs ex_aux_no_execfn [] ! 0 = 0x1000"
    by (simp add: argv_block_def ex_args_def)
  show ?thesis
    using execfn_preference [OF ex_no_execfn_well_formed, where os = ex_os and mem = ex_mem and rest = "[]"]
      ex_no_execfn_well_formed ex_no_execfn r
    by (auto simp add: a)
qed

text \<open>
  C6. For every well-formed stack block whose auxiliary vector has no pair with the tag
  \<open>AT_PLATFORM\<close>, the platform handed to the loader is the name compiled in for the
  target: \<^verbatim>\<open>x86_64\<close> on 64-bit x86, \<^verbatim>\<open>i386\<close> on 32-bit x86, \<^verbatim>\<open>arm\<close> on ARM and \<^verbatim>\<open>mips\<close>
  on MIPS. It is a pointer that is not null to a string that is not empty, and it
  depends on nothing that is found at run time: not on the kernel's answers, not on the
  memory, not on the rest of the block.
\<close>

theorem default_platform_used:
  fixes args envs :: "'w::len word list"
  assumes "well_formed args envs aux" and "last_seen AT_PLATFORM aux = None"
    and "do_start arch os mem (stack_block args envs aux rest) = Some evs"
    and "Sys_execve file new_argv envp \<in> set evs"
  shows "new_argv ! 1 = Some (Ptr (default_platform arch)) \<and>
         default_platform arch \<noteq> [] \<and>
         default_platform arch \<in> {''x86_64'', ''i386'', ''arm'', ''mips''} \<and>
         new_argv ! 1 =
           Some (Ptr (case arch of X86_64 \<Rightarrow> ''x86_64'' | I386 \<Rightarrow> ''i386''
                      | ARM \<Rightarrow> ''arm'' | MIPS \<Rightarrow> ''mips''))"
proof -
  from execve_in_run [OF assms(1,3,4)]
  have "new_argv = built_argv arch os mem args aux file"
    by simp
  then have "new_argv ! 1 = Some (Ptr (default_platform arch))"
    using assms(2) by (simp add: built_argv_def aux_ptr_def)
  then show ?thesis
    by (cases arch) simp_all
qed

text \<open>
  Without a platform pair, the 64-bit x86 build passes \<^verbatim>\<open>x86_64\<close>, the 32-bit one \<^verbatim>\<open>i386\<close>,
  the ARM build \<^verbatim>\<open>arm\<close> and the MIPS build \<^verbatim>\<open>mips\<close>; the rest of the vector is the same.
\<close>

theorem default_platform_used_witness:
  "well_formed ex_args ex_envs ex_aux_no_platform \<and>
   last_seen AT_PLATFORM ex_aux_no_platform = None \<and>
   do_start X86_64 ex_os ex_mem (stack_block ex_args ex_envs ex_aux_no_platform []) =
     Some [Sys_execve ''/bin/loader'' ex_new_argv (envp_block ex_envs ex_aux_no_platform [])] \<and>
   ex_new_argv ! 1 = Some (Ptr ''x86_64'') \<and>
   do_start I386 ex_os ex_mem (stack_block ex_args ex_envs ex_aux_no_platform []) =
     Some [Sys_execve ''/bin/loader'' (ex_new_argv [1 := Some (Ptr ''i386'')])
            (envp_block ex_envs ex_aux_no_platform [])] \<and>
   do_start ARM ex_os ex_mem (stack_block ex_args ex_envs ex_aux_no_platform []) =
     Some [Sys_execve ''/bin/loader'' (ex_new_argv [1 := Some (Ptr ''arm'')])
            (envp_block ex_envs ex_aux_no_platform [])] \<and>
   do_start MIPS ex_os ex_mem (stack_block ex_args ex_envs ex_aux_no_platform []) =
     Some [Sys_execve ''/bin/loader'' (ex_new_argv [1 := Some (Ptr ''mips'')])
            (envp_block ex_envs ex_aux_no_platform [])]"
proof -
  let ?envp = "envp_block ex_envs ex_aux_no_platform []"
  let ?block = "stack_block ex_args ex_envs ex_aux_no_platform []"
  have w: "well_formed ex_args ex_envs ex_aux_no_platform"
    by (simp add: well_formed_def ex_args_def ex_envs_def ex_aux_no_platform_def)
  have l: "last_seen AT_SECURE ex_aux_no_platform = Some 0"
    by (simp add: last_seen_def ex_aux_no_platform_def)
  have n: "last_seen AT_PLATFORM ex_aux_no_platform = None"
    by (simp add: last_seen_def ex_aux_no_platform_def)
  have x: "execve_errno ex_os ''/bin/loader'' = None"
    by (simp add: ex_os_def)
  have e: "aux_ptr ex_mem AT_EXECFN ex_aux_no_platform = Ptr ''/path/to/prog''"
    by (simp add: aux_ptr_def last_seen_def ex_aux_no_platform_def)
  have p: "aux_ptr ex_mem AT_PLATFORM ex_aux_no_platform = NULL"
    by (simp add: aux_ptr_def n)
  have b: "built_argv a ex_os ex_mem ex_args ex_aux_no_platform ''/bin/loader'' =
      ex_new_argv [1 := Some (Ptr (default_platform a))]" for a
    by (simp add: built_argv_def e p preferred_execfn_def ex_args_def ex_new_argv_def)
  have r: "do_start a ex_os ex_mem ?block =
      Some [Sys_execve ''/bin/loader'' (ex_new_argv [1 := Some (Ptr (default_platform a))]) ?envp]"
    for a
    using run_exec_succeeds [OF w l ex_lookup_env x, where arch = a and rest = "[]"]
    by (simp add: e b)
  have i: "Sys_execve ''/bin/loader'' v ?envp \<in> set [Sys_execve ''/bin/loader'' v ?envp]" for v
    by simp
  show ?thesis
    using default_platform_used [OF w n r [of X86_64] i]
      default_platform_used [OF w n r [of I386] i]
      default_platform_used [OF w n r [of ARM] i]
      default_platform_used [OF w n r [of MIPS] i]
      w n r [of X86_64] r [of I386] r [of ARM] r [of MIPS]
    by (simp add: ex_new_argv_def)
qed

text \<open>
  C7. On a well-formed stack block every run either ends in a successful \<open>execve\<close>,
  with nothing written and no exit, or takes one of the three fatal paths. Each fatal
  path ends with exactly one \<open>writev\<close> call, to file descriptor 2, of one line made of
  the prefix \<^verbatim>\<open>nacl_interp: \<close>, the message, the file name if any, for a failed
  \<open>execve\<close> the text \<^verbatim>\<open>: errno=\<close> and the error number in decimal, and a newline,
  followed by \<^verbatim>\<open>exit_group(2)\<close>: the same status, not zero, on all three. The error
  number that the kernel reports is never the most negative \<^verbatim>\<open>int\<close>.
\<close>

theorem fatal_paths:
  fixes args envs :: "'w::len word list"
  assumes "well_formed args envs aux" and "\<forall>file. execve_errno os file \<noteq> Some INT_MIN"
  shows "\<exists>evs. do_start arch os mem (stack_block args envs aux rest) = Some evs \<and>
     (last_seen AT_SECURE aux \<noteq> Some 0 \<longrightarrow>
        fatal_with (refused_line (c_string (preferred_execfn os mem (hd (args @ [0])) aux))) evs) \<and>
     (last_seen AT_SECURE aux = Some 0 \<and> lookup_env mem ENVAR envs = NULL \<longrightarrow>
        fatal_with missing_loader_line evs) \<and>
     (\<forall>file my_errno. last_seen AT_SECURE aux = Some 0 \<and> lookup_env mem ENVAR envs = Ptr file \<and>
        execve_errno os file = Some my_errno \<longrightarrow>
        fatal_with (exec_failed_line (c_string (Ptr file)) (sint my_errno)) evs) \<and>
     (\<forall>file. last_seen AT_SECURE aux = Some 0 \<and> lookup_env mem ENVAR envs = Ptr file \<and>
        execve_errno os file = None \<longrightarrow>
        (\<exists>before new_argv envp. evs = before @ [Sys_execve file new_argv envp]) \<and>
        \<not> list_ex is_writev evs \<and> \<not> list_ex is_exit evs)"
proof (cases "last_seen AT_SECURE aux \<noteq> Some 0")
  case True
  with run_refused [OF assms(1) True, where arch = arch and os = os and mem = mem and rest = rest]
  show ?thesis
    by auto
next
  case False
  then have s: "last_seen AT_SECURE aux = Some 0"
    by simp
  show ?thesis
  proof (cases "lookup_env mem ENVAR envs")
    case NULL
    with run_missing_loader [OF assms(1) s NULL, where arch = arch and os = os and rest = rest] s
    show ?thesis
      by auto
  next
    case (Ptr f)
    show ?thesis
    proof (cases "execve_errno os f")
      case None
      have "do_start arch os mem (stack_block args envs aux rest) =
          Some ((if aux_ptr mem AT_EXECFN aux = NULL then [Sys_readlink ''/proc/self/exe'' PATH_MAX] else []) @
                [Sys_execve f (built_argv arch os mem args aux f) (envp_block envs aux rest)])"
        by (rule run_exec_succeeds [OF assms(1) s Ptr None])
      with s Ptr None show ?thesis
        by auto
    next
      case (Some my_errno)
      with assms(2) have m: "my_errno \<noteq> INT_MIN"
        by auto
      from run_exec_failed [OF assms(1) s Ptr Some m, where arch = arch and rest = rest]
      obtain before iov
        where d: "do_start arch os mem (stack_block args envs aux rest) =
            Some ((before @ [Sys_execve f (built_argv arch os mem args aux f) (envp_block envs aux rest)]) @
                  [Sys_writev 2 iov, Sys_exit_group 2])"
          and b: "\<not> list_ex is_writev before" "\<not> list_ex is_exit before"
          and l: "writev_bytes iov = exec_failed_line (c_string (Ptr f)) (sint my_errno)"
        by auto
      have "fatal_with (exec_failed_line (c_string (Ptr f)) (sint my_errno))
          ((before @ [Sys_execve f (built_argv arch os mem args aux f) (envp_block envs aux rest)]) @
           [Sys_writev 2 iov, Sys_exit_group 2])"
        using b l by (intro fatal_with_append) simp_all
      with d s Ptr Some show ?thesis
        by auto
    qed
  qed
qed

text \<open>The loader cannot be executed: error 2.\<close>

theorem fatal_paths_witness:
  "well_formed ex_args ex_envs ex_aux \<and>
   (\<forall>file. execve_errno ex_os_noent file \<noteq> Some INT_MIN) \<and>
   last_seen AT_SECURE ex_aux = Some 0 \<and>
   lookup_env ex_mem ENVAR ex_envs = Ptr ''/bin/loader'' \<and>
   execve_errno ex_os_noent ''/bin/loader'' = Some 2 \<and>
   (\<exists>evs. do_start X86_64 ex_os_noent ex_mem (stack_block ex_args ex_envs ex_aux []) = Some evs \<and>
      fatal_with (''nacl_interp: failed to execute /bin/loader: errno=2'' @ [CHR 0x0A]) evs)"
proof -
  have h: "\<forall>file. execve_errno ex_os_noent file \<noteq> Some INT_MIN"
    by (simp add: ex_os_noent_def INT_MIN_def)
  have l: "last_seen AT_SECURE ex_aux = Some 0"
    by (simp add: last_seen_def ex_aux_def)
  have x: "execve_errno ex_os_noent ''/bin/loader'' = Some 2"
    by (simp add: ex_os_noent_def)
  have e: "exec_failed_line (c_string (Ptr ''/bin/loader'')) (sint (2 :: c_int)) =
      ''nacl_interp: failed to execute /bin/loader: errno=2'' @ [CHR 0x0A]"
    by (simp add: exec_failed_line_def decimal_def dec_nat.simps digit_char_def c_string_def NUL_def)
  from fatal_paths [OF ex_well_formed h, where arch = X86_64 and mem = ex_mem and rest = "[]"]
  obtain evs
    where "do_start X86_64 ex_os_noent ex_mem (stack_block ex_args ex_envs ex_aux []) = Some evs"
      and "\<forall>file my_errno. last_seen AT_SECURE ex_aux = Some 0 \<and>
        lookup_env ex_mem ENVAR ex_envs = Ptr file \<and> execve_errno ex_os_noent file = Some my_errno \<longrightarrow>
        fatal_with (exec_failed_line (c_string (Ptr file)) (sint my_errno)) evs"
    by blast
  with l ex_lookup_env x e
  have "do_start X86_64 ex_os_noent ex_mem (stack_block ex_args ex_envs ex_aux []) = Some evs \<and>
      fatal_with (''nacl_interp: failed to execute /bin/loader: errno=2'' @ [CHR 0x0A]) evs"
    by metis
  with ex_well_formed h l ex_lookup_env x show ?thesis
    by blast
qed

text \<open>
  C8. For every well-formed initial stack block whose leading count is the number \<open>N\<close>
  of its argument pointers, the decoder recovers \<open>argc = N\<close>; \<open>argv\<close> is the \<open>N\<close>
  pointers followed by a null word; the scan for the end of \<open>envp\<close> stops at the first
  null word after that, and both scans of the auxiliary vector stop at its first pair
  with the tag \<open>AT_NULL\<close>, having looked at exactly the pairs before it.
\<close>

theorem stack_decoder:
  fixes args envs :: "'w::len word list"
  assumes "well_formed args envs aux"
  shows "decode_stack (stack_block args envs aux rest) =
           Some (of_nat (length args), argv_block args envs aux rest,
                 envp_block envs aux rest, auxv_block aux rest) \<and>
         sint (of_nat (length args) :: c_int) = int (length args) \<and>
         argv_block args envs aux rest = args @ 0 # envp_block envs aux rest \<and>
         envp_block envs aux rest = envs @ 0 # auxv_block aux rest \<and>
         find_null (envp_block envs aux rest) = Some (0 # auxv_block aux rest) \<and>
         auxv_block aux rest = aux_words aux @ AT_NULL # rest \<and>
         find_at_null (auxv_block aux rest) = Some (AT_NULL # rest) \<and>
         scan_auxv mem (auxv_block aux rest) c =
           Some (fold (\<lambda>(a_type, a_val). aux_entry mem a_type a_val) aux c)"
proof -
  from assms have n: "length args < 2 ^ 31 - 4" and e: "0 \<notin> set envs"
    and a: "AT_NULL \<notin> fst ` set aux"
    by (simp_all add: well_formed_def)
  have "sint (of_nat (length args) :: c_int) = int (length args)"
    by (rule sint_of_nat_count [OF n]) simp
  moreover have "find_null (envp_block envs aux rest) = Some (0 # auxv_block aux rest)"
    unfolding envp_block_def by (rule find_null_block [OF e])
  moreover have "find_at_null (auxv_block aux rest) = Some (AT_NULL # rest)"
    unfolding auxv_block_def by (rule find_at_null_block [OF a])
  moreover have "scan_auxv mem (auxv_block aux rest) c =
      Some (fold (\<lambda>(a_type, a_val). aux_entry mem a_type a_val) aux c)"
    unfolding auxv_block_def by (rule scan_auxv_block [OF a])
  ultimately show ?thesis
    by (simp add: decode_stack_block [OF assms] argv_block_def envp_block_def auxv_block_def)
qed

text \<open>The block of the example, decoded.\<close>

theorem stack_decoder_witness:
  "well_formed ex_args ex_envs ex_aux \<and>
   stack_block ex_args ex_envs ex_aux [0] =
     [3, 0x1000, 0x1010, 0x1020, 0, 0x2100, 0x2000, 0, 23, 0, 31, 0x3000, 15, 0x3100, 0, 0] \<and>
   decode_stack (stack_block ex_args ex_envs ex_aux [0]) =
     Some (3, [0x1000, 0x1010, 0x1020, 0, 0x2100, 0x2000, 0, 23, 0, 31, 0x3000, 15, 0x3100, 0, 0],
           [0x2100, 0x2000, 0, 23, 0, 31, 0x3000, 15, 0x3100, 0, 0],
           [23, 0, 31, 0x3000, 15, 0x3100, 0, 0])"
  using stack_decoder [OF ex_well_formed, where rest = "[0]"] ex_well_formed
  by (simp add: stack_block_def argv_block_def envp_block_def auxv_block_def aux_words_def
      ex_args_def ex_envs_def ex_aux_def AT_NULL_def AT_SECURE_def AT_EXECFN_def AT_PLATFORM_def)

text \<open>
  C9. When the run is refused because \<open>secure\<close> is true, the environment is not
  consulted: the run is the same for every environment, that is for every list of
  environment pointers and for every memory that holds the same two strings the refusal
  may print, the one of the \<open>AT_EXECFN\<close> pair and \<open>argv[0]\<close>.
\<close>

theorem secure_exec_ignores_environment:
  fixes args envs envs' :: "'w::len word list"
  assumes "well_formed args envs aux" and "well_formed args envs' aux"
    and "last_seen AT_SECURE aux \<noteq> Some 0"
    and "\<forall>v. last_seen AT_EXECFN aux = Some v \<longrightarrow> mem' v = mem v"
    and "mem' (hd (args @ [0])) = mem (hd (args @ [0]))"
  shows "\<exists>evs. do_start arch os mem (stack_block args envs aux rest) = Some evs \<and>
           do_start arch os mem' (stack_block args envs' aux rest) = Some evs \<and>
           fatal_with (refused_line (c_string (preferred_execfn os mem (hd (args @ [0])) aux))) evs \<and>
           \<not> list_ex is_execve evs"
proof -
  have a: "aux_ptr mem' AT_EXECFN aux = aux_ptr mem AT_EXECFN aux"
    using assms(4) by (simp add: aux_ptr_def to_ptr_def split: option.splits)
  have t: "to_ptr mem' (hd (args @ [0])) = to_ptr mem (hd (args @ [0]))"
    using assms(5) by (simp add: to_ptr_def)
  have p: "preferred_execfn os mem' (hd (args @ [0])) aux = preferred_execfn os mem (hd (args @ [0])) aux"
    by (simp add: preferred_execfn_def a t split: option.splits)
  have "do_start arch os mem' (stack_block args envs' aux rest) =
      do_start arch os mem (stack_block args envs aux rest)"
    using assms(3) by (simp add: do_start_block [OF assms(1)] do_start_block [OF assms(2)] a p)
  then show ?thesis
    using run_refused [OF assms(1,3), where arch = arch and os = os and mem = mem and rest = rest]
    by auto
qed

text \<open>Two environments, one with a loader and one with another string at its address.\<close>

theorem secure_exec_ignores_environment_witness:
  "well_formed ex_args ex_envs ex_aux_setuid \<and> well_formed ex_args ex_envs_no_loader ex_aux_setuid \<and>
   last_seen AT_SECURE ex_aux_setuid \<noteq> Some 0 \<and>
   last_seen AT_EXECFN ex_aux_setuid = Some 0x3000 \<and>
   ex_mem_other 0x3000 = ex_mem 0x3000 \<and>
   ex_mem_other (hd (ex_args @ [0])) = ex_mem (hd (ex_args @ [0])) \<and>
   ex_mem_other 0x2000 \<noteq> ex_mem 0x2000 \<and>
   (\<exists>evs. do_start X86_64 ex_os ex_mem (stack_block ex_args ex_envs ex_aux_setuid []) = Some evs \<and>
      do_start X86_64 ex_os ex_mem_other (stack_block ex_args ex_envs_no_loader ex_aux_setuid []) = Some evs \<and>
      fatal_with (refused_line ''/path/to/prog'') evs)"
proof -
  have w: "well_formed ex_args ex_envs ex_aux_setuid"
    by (simp add: well_formed_def ex_args_def ex_envs_def ex_aux_setuid_def)
  have w': "well_formed ex_args ex_envs_no_loader ex_aux_setuid"
    by (simp add: well_formed_def ex_args_def ex_envs_no_loader_def ex_aux_setuid_def)
  have s: "last_seen AT_SECURE ex_aux_setuid \<noteq> Some 0"
    by (simp add: last_seen_def ex_aux_setuid_def)
  have e: "last_seen AT_EXECFN ex_aux_setuid = Some 0x3000"
    by (simp add: last_seen_def ex_aux_setuid_def)
  have m3: "ex_mem_other 0x3000 = ex_mem 0x3000"
    by (simp add: ex_mem_other_def)
  then have m: "\<forall>v. last_seen AT_EXECFN ex_aux_setuid = Some v \<longrightarrow> ex_mem_other v = ex_mem v"
    by (simp add: e)
  have h: "ex_mem_other (hd (ex_args @ [0])) = ex_mem (hd (ex_args @ [0]))"
    by (simp add: ex_args_def ex_mem_other_def)
  have d: "ex_mem_other 0x2000 \<noteq> ex_mem 0x2000"
    by (simp add: ex_mem_other_def ex_mem_def)
  have c: "c_string (preferred_execfn ex_os ex_mem (hd (ex_args @ [0])) ex_aux_setuid) = ''/path/to/prog''"
    by (simp add: preferred_execfn_def aux_ptr_def e c_string_def NUL_def)
  show ?thesis
    using secure_exec_ignores_environment [OF w w' s m h, where arch = X86_64 and os = ex_os and rest = "[]"]
      w w' s e m3 h d
    unfolding c by blast
qed

text \<open>
  C10. When the auxiliary vector has no pair with the tag \<open>AT_EXECFN\<close> and the link
  \<^verbatim>\<open>/proc/self/exe\<close> can be read, \<open>readlink\<close> is called with the size of the buffer
  less one, the name of the executable is the buffer of \<open>PATH_MAX + 1\<close> bytes, it holds
  the first \<open>PATH_MAX\<close> bytes of the target at most, and a NUL follows them inside the
  buffer: a longer target is cut, not written past the end.
\<close>

theorem self_exe_terminated:
  fixes args envs :: "'w::len word list"
  assumes "well_formed args envs aux" and "last_seen AT_EXECFN aux = None"
    and "readlink_target os ''/proc/self/exe'' = Some target"
  shows "\<exists>c buf.
     resolve_context os mem (argv_block args envs aux rest) (auxv_block aux rest) =
       Some ([Sys_readlink ''/proc/self/exe'' (length buf - 1)], c) \<and>
     execfn c = Ptr buf \<and> length buf = PATH_MAX + 1 \<and>
     take (min (length target) PATH_MAX) buf = take PATH_MAX target \<and>
     buf ! min (length target) PATH_MAX = NUL \<and>
     length (c_string (execfn c)) \<le> PATH_MAX \<and>
     prefix (c_string (execfn c)) target"
proof -
  have n: "aux_ptr mem AT_EXECFN aux = NULL"
    using assms(2) by (simp add: aux_ptr_def)
  have "length (takeWhile (\<lambda>c. c \<noteq> NUL) (take PATH_MAX target)) \<le> length (take PATH_MAX target)"
    by (rule length_takeWhile_le)
  then have l: "length (c_string (Ptr (link_buffer target))) \<le> PATH_MAX"
    unfolding c_string_link_buffer by simp
  have "prefix (takeWhile (\<lambda>c. c \<noteq> NUL) (take PATH_MAX target)) (take PATH_MAX target)"
    by (rule takeWhile_is_prefix)
  moreover have "prefix (take PATH_MAX target) target"
    by (rule take_is_prefix)
  ultimately have p: "prefix (c_string (Ptr (link_buffer target))) target"
    unfolding c_string_link_buffer by (rule prefix_order.trans)
  show ?thesis
    unfolding resolve_context_stack_block [OF assms(1)]
    using l p
    by (simp add: n preferred_execfn_def assms(3) length_link_buffer link_buffer_terminated
        take_link_buffer)
qed

text \<open>The link points to \<^verbatim>\<open>/usr/bin/prog\<close>, 13 bytes.\<close>

theorem self_exe_terminated_witness:
  "well_formed ex_args ex_envs ex_aux_no_execfn \<and>
   last_seen AT_EXECFN ex_aux_no_execfn = None \<and>
   readlink_target ex_os_noent ''/proc/self/exe'' = Some ''/usr/bin/prog'' \<and>
   (\<exists>c buf.
      resolve_context ex_os_noent ex_mem (argv_block ex_args ex_envs ex_aux_no_execfn [])
        (auxv_block ex_aux_no_execfn []) = Some ([Sys_readlink ''/proc/self/exe'' (length buf - 1)], c) \<and>
      execfn c = Ptr buf \<and> length buf = PATH_MAX + 1 \<and>
      take 13 buf = ''/usr/bin/prog'' \<and> buf ! 13 = NUL \<and>
      prefix (c_string (execfn c)) ''/usr/bin/prog'')"
proof -
  have r: "readlink_target ex_os_noent ''/proc/self/exe'' = Some ''/usr/bin/prog''"
    by (simp add: ex_os_noent_def)
  have m: "min (length ''/usr/bin/prog'') PATH_MAX = 13" "take PATH_MAX ''/usr/bin/prog'' = ''/usr/bin/prog''"
    by (simp_all add: PATH_MAX_def)
  show ?thesis
    using self_exe_terminated [OF ex_no_execfn_well_formed ex_no_execfn r, where mem = ex_mem and rest = "[]"]
      ex_no_execfn_well_formed ex_no_execfn r
    unfolding m by blast
qed

end
